theory Spec2Isabelle
  imports Complex_Main "HOL-Library.Word" "HOL-Library.Multiset"
begin

section \<open>The note store (src/lib/db.ts)\<close>

text \<open>
  A row of the \<open>notes\<close> table, as \<open>getNote\<close> returns it. TypeScript's \<open>number\<close> fields:
  \<open>createdAt\<close> and \<open>currentReads\<close> are only ever produced by \<open>Date.now()\<close>, the literal
  \<open>0\<close> and SQL's \<open>currentReads + 1\<close>, so they are integers; \<open>maxReads\<close> comes from the
  request body, where any JSON number can stand, so it is a rational (every JSON number
  is one). The column \<open>selfDestruct\<close> is written as \<open>note.selfDestruct ? 1 : 0\<close> and read
  back as \<open>note.selfDestruct === 1\<close>; the row keeps the boolean. The field \<open>id\<close> is
  \<open>note_id\<close> here (\<open>id\<close> is the identity function of HOL).
\<close>

record Note =
  note_id :: string
  ciphertext :: string
  nonce :: string
  ephemeralPublicKey :: string
  recipientAddress :: string
  createdAt :: int
  selfDestruct :: bool
  maxReads :: "rat option"
  currentReads :: int

text \<open>The table \<open>notes\<close>, keyed by its primary key \<open>id\<close>.\<close>

type_synonym notes_table = "string \<rightharpoonup> Note"

text \<open>What a JavaScript \<open>throw\<close> carries: the error's class and its message.\<close>

datatype js_error =
    Error string
  | TypeError string
  | URIError string
  | SqliteError string

text \<open>
  \<open>createNote\<close>: \<open>INSERT INTO notes ...\<close> with \<open>createdAt = Date.now()\<close> (the argument
  \<open>now\<close>) and \<open>currentReads = 0\<close>. The insert throws when the primary key is taken.
  The argument is the note without \<open>createdAt\<close> and \<open>currentReads\<close>; the model takes a
  whole record and overwrites the two.
\<close>

definition createNote :: "notes_table \<Rightarrow> int \<Rightarrow> Note \<Rightarrow> js_error + (Note \<times> notes_table)" where
  "createNote db now note =
     (case db (note_id note) of
        Some _ \<Rightarrow> Inl (SqliteError ''UNIQUE constraint failed: notes.id'')
      | None \<Rightarrow>
          (let row = note\<lparr>createdAt := now, currentReads := 0\<rparr>
           in Inr (row, db(note_id note \<mapsto> row))))"

text \<open>\<open>getNote\<close>: \<open>SELECT * FROM notes WHERE id = ?\<close>; \<open>null\<close> is \<open>None\<close>.\<close>

definition getNote :: "notes_table \<Rightarrow> string \<Rightarrow> Note option" where
  "getNote db i = db i"

text \<open>
  \<open>incrementReadCount\<close>: \<open>UPDATE notes SET currentReads = currentReads + 1 WHERE id = ?\<close>,
  one statement; returns \<open>result.changes > 0\<close>.
\<close>

definition incrementReadCount :: "notes_table \<Rightarrow> string \<Rightarrow> bool \<times> notes_table" where
  "incrementReadCount db i =
     (case db i of
        None \<Rightarrow> (False, db)
      | Some n \<Rightarrow> (True, db(i \<mapsto> n\<lparr>currentReads := currentReads n + 1\<rparr>)))"

text \<open>\<open>deleteNote\<close>: \<open>DELETE FROM notes WHERE id = ?\<close>; returns \<open>result.changes > 0\<close>.\<close>

definition deleteNote :: "notes_table \<Rightarrow> string \<Rightarrow> bool \<times> notes_table" where
  "deleteNote db i =
     (case db i of
        None \<Rightarrow> (False, db)
      | Some _ \<Rightarrow> (True, db(i := None)))"

section \<open>The route handlers (src/app/api/notes)\<close>

text \<open>
  The note reached its limit: \<open>maxReads !== null && currentReads >= maxReads\<close>, the test
  both the increment handler and \<open>GET\<close> make.
\<close>

definition reachedMax :: "Note \<Rightarrow> bool" where
  "reachedMax n = (case maxReads n of None \<Rightarrow> False | Some m \<Rightarrow> of_int (currentReads n) \<ge> m)"

subsection \<open>POST /api/notes/[id]/increment\<close>

text \<open>
  The responses of the handler: 404 \<open>Note not found\<close>, or
  \<open>{success: true, deleted, currentReads}\<close>. The handler's \<open>catch\<close> (status 500) is
  reached by no statement of the model: none of the three store functions throws.
\<close>

datatype increment_response =
    IncrementNotFound
  | IncrementOk (deleted: bool) (reads: int)

text \<open>
  \<open>updatedNote?.currentReads || note.currentReads + 1\<close>: the left operand when it is
  neither \<open>undefined\<close> nor \<open>0\<close>, else the right one.
\<close>

definition reportedReads :: "Note option \<Rightarrow> Note \<Rightarrow> int" where
  "reportedReads updatedNote note =
     (case updatedNote of
        None \<Rightarrow> currentReads note + 1
      | Some u \<Rightarrow> if currentReads u \<noteq> 0 then currentReads u else currentReads note + 1)"

text \<open>
  The handler run from its first statement to its response with no other request's
  statement in between. All its store calls are synchronous, and its only \<open>await\<close>
  (\<open>await params\<close>) comes before the first of them.
\<close>

definition POST_increment :: "notes_table \<Rightarrow> string \<Rightarrow> increment_response \<times> notes_table" where
  "POST_increment db i =
     (case getNote db i of
        None \<Rightarrow> (IncrementNotFound, db)
      | Some note \<Rightarrow>
          (let db1 = snd (incrementReadCount db i);
               updatedNote = getNote db1 i
           in case updatedNote of
                Some u \<Rightarrow>
                  if reachedMax u
                  then (IncrementOk True (currentReads u), snd (deleteNote db1 i))
                  else (IncrementOk False (reportedReads updatedNote note), db1)
              | None \<Rightarrow> (IncrementOk False (reportedReads updatedNote note), db1)))"

subsection \<open>GET and DELETE /api/notes/[id]\<close>

text \<open>The fields \<open>GET\<close> puts in its response: all of the row but \<open>createdAt\<close>.\<close>

record NotePublic =
  p_id :: string
  p_ciphertext :: string
  p_nonce :: string
  p_ephemeralPublicKey :: string
  p_recipientAddress :: string
  p_selfDestruct :: bool
  p_maxReads :: "rat option"
  p_currentReads :: int

definition publicFields :: "Note \<Rightarrow> NotePublic" where
  "publicFields n =
     \<lparr>p_id = note_id n, p_ciphertext = ciphertext n, p_nonce = nonce n,
      p_ephemeralPublicKey = ephemeralPublicKey n, p_recipientAddress = recipientAddress n,
      p_selfDestruct = selfDestruct n, p_maxReads = maxReads n,
      p_currentReads = currentReads n\<rparr>"

datatype get_response =
    GetNotFound
  | GetOk NotePublic

definition GET_note :: "notes_table \<Rightarrow> string \<Rightarrow> get_response \<times> notes_table" where
  "GET_note db i =
     (case getNote db i of
        None \<Rightarrow> (GetNotFound, db)
      | Some note \<Rightarrow>
          if reachedMax note
          then (GetNotFound, snd (deleteNote db i))
          else (GetOk (publicFields note), db))"

datatype delete_response =
    DeleteNotFound
  | DeleteOk

definition DELETE_note :: "notes_table \<Rightarrow> string \<Rightarrow> delete_response \<times> notes_table" where
  "DELETE_note db i =
     (case deleteNote db i of
        (False, db') \<Rightarrow> (DeleteNotFound, db')
      | (True, db') \<Rightarrow> (DeleteOk, db'))"

subsection \<open>POST /api/notes\<close>

text \<open>
  The JSON values a body field can hold, as far as the handler tells them apart
  (\<open>typeof maxReads !== 'number'\<close>).
\<close>

datatype json = JNull | JBool bool | JNum rat | JStr string

text \<open>
  The request body, each field under the name \<open>b_\<close> and its own. An absent
  \<open>selfDestruct\<close> defaults to \<open>true\<close> and an absent \<open>maxReads\<close> to \<open>null\<close> (the
  destructuring defaults): \<open>None\<close> is the absent field. The five text fields are
  strings and \<open>selfDestruct\<close>, when present, is a boolean; \<open>maxReads\<close> is any JSON
  value, since the handler tests its type.
\<close>

record CreateBody =
  b_id :: string
  b_ciphertext :: string
  b_nonce :: string
  b_ephemeralPublicKey :: string
  b_recipientAddress :: string
  b_selfDestruct :: "bool option"
  b_maxReads :: "json option"

datatype create_response =
    CreateBadRequest string
  | CreateOk string
  | CreateFailed

text \<open>
  \<open>maxReads !== null && (typeof maxReads !== 'number' || maxReads < 1 || maxReads > 1000)\<close>
\<close>

definition invalidMaxReads :: "json \<Rightarrow> bool" where
  "invalidMaxReads v =
     (case v of
        JNull \<Rightarrow> False
      | JNum r \<Rightarrow> r < 1 \<or> r > 1000
      | _ \<Rightarrow> True)"

definition maxReadsOf :: "json \<Rightarrow> rat option" where
  "maxReadsOf v = (case v of JNum r \<Rightarrow> Some r | _ \<Rightarrow> None)"

text \<open>
  The handler. \<open>validAddress\<close> stands for \<open>new PublicKey(recipientAddress)\<close> not throwing
  (@solana/web3.js), \<open>now\<close> for \<open>Date.now()\<close>. A string is falsy when it is empty.
\<close>

definition POST_notes ::
  "(string \<Rightarrow> bool) \<Rightarrow> int \<Rightarrow> notes_table \<Rightarrow> CreateBody \<Rightarrow> create_response \<times> notes_table" where
  "POST_notes validAddress now db body =
     (let selfDestruct' = (case b_selfDestruct body of None \<Rightarrow> True | Some b \<Rightarrow> b);
          maxReads' = (case b_maxReads body of None \<Rightarrow> JNull | Some v \<Rightarrow> v)
      in if b_id body = [] \<or> b_ciphertext body = [] \<or> b_nonce body = []
            \<or> b_ephemeralPublicKey body = [] \<or> b_recipientAddress body = []
         then (CreateBadRequest ''Missing required fields'', db)
         else if \<not> validAddress (b_recipientAddress body)
         then (CreateBadRequest ''Invalid Solana address'', db)
         else if length (b_ciphertext body) > 100000
         then (CreateBadRequest ''Message too large'', db)
         else if invalidMaxReads maxReads'
         then (CreateBadRequest ''Invalid maxReads value'', db)
         else
           (case createNote db now
                   \<lparr>note_id = b_id body, ciphertext = b_ciphertext body, nonce = b_nonce body,
                    ephemeralPublicKey = b_ephemeralPublicKey body,
                    recipientAddress = b_recipientAddress body, createdAt = 0,
                    selfDestruct = selfDestruct', maxReads = maxReadsOf maxReads',
                    currentReads = 0\<rparr> of
              Inl _ \<Rightarrow> (CreateFailed, db)
            | Inr (note, db') \<Rightarrow> (CreateOk (note_id note), db')))"

section \<open>Requests served concurrently\<close>

text \<open>
  The increment handler is an \<open>async\<close> function with one \<open>await\<close>, \<open>await params\<close> (line
  9), before its first store call. The store calls that follow (\<open>getNote\<close>,
  \<open>incrementReadCount\<close>, \<open>getNote\<close>, \<open>deleteNote\<close>) are synchronous calls on the one
  connection of db.ts, so nothing of another request runs between them. Requests served
  concurrently interleave at that \<open>await\<close> alone. A request is waiting for its \<open>params\<close>,
  or has them and runs its store calls next, or has answered.
\<close>

datatype pc =
    Awaiting
  | Resumed
  | Done increment_response

text \<open>
  The table, the requests in flight on note \<open>i\<close>, and the number of times the row of
  note \<open>i\<close> was removed: it was stored before a request's store calls and is gone
  after them.
\<close>

record system =
  table :: notes_table
  requests :: "pc list"
  removed :: nat

text \<open>Request \<open>k\<close> runs up to its next \<open>await\<close> or to its response.\<close>

definition exec :: "string \<Rightarrow> system \<Rightarrow> nat \<Rightarrow> system" where
  "exec i s k =
     (if k < length (requests s)
      then
        (case requests s ! k of
           Awaiting \<Rightarrow> s\<lparr>requests := (requests s)[k := Resumed]\<rparr>
         | Resumed \<Rightarrow>
             (let r = POST_increment (table s) i
              in \<lparr>table = snd r,
                  requests = (requests s)[k := Done (fst r)],
                  removed = removed s + (if table s i \<noteq> None \<and> snd r i = None then 1 else 0)\<rparr>)
         | Done _ \<Rightarrow> s)
      else s)"

text \<open>A schedule names, step by step, the request the event loop runs next.\<close>

definition run :: "string \<Rightarrow> nat list \<Rightarrow> system \<Rightarrow> system" where
  "run i sched s = foldl (exec i) s sched"

definition launch :: "notes_table \<Rightarrow> nat \<Rightarrow> system" where
  "launch db n = \<lparr>table = db, requests = replicate n Awaiting, removed = 0\<rparr>"

fun finished :: "pc \<Rightarrow> bool" where
  "finished (Done _) = True"
| "finished _ = False"

text \<open>The responses given so far.\<close>

fun responses :: "pc list \<Rightarrow> increment_response list" where
  "responses [] = []"
| "responses (Done r # ps) = r # responses ps"
| "responses (Awaiting # ps) = responses ps"
| "responses (Resumed # ps) = responses ps"

text \<open>The handler called \<open>k\<close> times, one call after the other: the responses in order.\<close>

fun POST_increment_times :: "nat \<Rightarrow> notes_table \<Rightarrow> string \<Rightarrow> increment_response list \<times> notes_table" where
  "POST_increment_times 0 db i = ([], db)"
| "POST_increment_times (Suc k) db i =
     (let r = POST_increment db i;
          rest = POST_increment_times k (snd r) i
      in (fst r # fst rest, snd rest))"

text \<open>The rows a response accounts for as removed.\<close>

fun removes :: "increment_response \<Rightarrow> nat" where
  "removes (IncrementOk True _) = 1"
| "removes _ = 0"

text \<open>
  After \<open>k\<close> responses the table, the responses (in some order) and the count of
  removals are those of \<open>k\<close> calls of the handler one after the other.
\<close>

definition served :: "notes_table \<Rightarrow> string \<Rightarrow> system \<Rightarrow> bool" where
  "served db i s =
     (let calls = POST_increment_times (length (responses (requests s))) db i
      in table s = snd calls \<and>
         mset (responses (requests s)) = mset (fst calls) \<and>
         removed s = sum_list (map removes (fst calls)))"

text \<open>The lifecycle operations on a note, and a sequence of them run one at a time.\<close>

datatype operation =
    Create CreateBody int
  | Fetch string
  | RecordSuccessfulDecrypt string
  | Delete string

datatype outcome =
    Created create_response
  | Fetched_note get_response
  | Recorded increment_response
  | Deleted_note delete_response

definition perform :: "(string \<Rightarrow> bool) \<Rightarrow> notes_table \<Rightarrow> operation \<Rightarrow> outcome \<times> notes_table" where
  "perform validAddress db op =
     (case op of
        Create body now \<Rightarrow> map_prod Created id (POST_notes validAddress now db body)
      | Fetch i \<Rightarrow> map_prod Fetched_note id (GET_note db i)
      | RecordSuccessfulDecrypt i \<Rightarrow> map_prod Recorded id (POST_increment db i)
      | Delete i \<Rightarrow> map_prod Deleted_note id (DELETE_note db i))"

subsection \<open>The limit, over operations run one at a time\<close>

text \<open>A JSON number that is a whole number.\<close>

definition whole :: "rat \<Rightarrow> bool" where
  "whole m = (of_int \<lfloor>m\<rfloor> = m)"

text \<open>Every stored note with a limit has fewer reads than its limit.\<close>

definition below_limit :: "notes_table \<Rightarrow> bool" where
  "below_limit db =
     (\<forall>i n m. db i = Some n \<and> maxReads n = Some m \<longrightarrow> of_int (currentReads n) < m)"

text \<open>Every limit of a stored note is a whole number.\<close>

definition whole_limits :: "notes_table \<Rightarrow> bool" where
  "whole_limits db = (\<forall>i n m. db i = Some n \<and> maxReads n = Some m \<longrightarrow> whole m)"

text \<open>A create request whose \<open>maxReads\<close>, when it is a number, is a whole number.\<close>

fun whole_request :: "operation \<Rightarrow> bool" where
  "whole_request (Create body now) =
     (case b_maxReads body of Some (JNum r) \<Rightarrow> whole r | _ \<Rightarrow> True)"
| "whole_request _ = True"

text \<open>
  The \<open>currentReads\<close> an operation reports is at most the note's \<open>maxReads\<close>: for a fetch
  the one in the response, for a recorded decrypt the one of the row the request found.
\<close>

fun reported_within_limit :: "notes_table \<Rightarrow> operation \<Rightarrow> outcome \<Rightarrow> bool" where
  "reported_within_limit db (Fetch i) (Fetched_note (GetOk p)) =
     (case p_maxReads p of None \<Rightarrow> True | Some m \<Rightarrow> of_int (p_currentReads p) \<le> m)"
| "reported_within_limit db (RecordSuccessfulDecrypt i) (Recorded (IncrementOk d r)) =
     (case db i of
        None \<Rightarrow> True
      | Some n \<Rightarrow> (case maxReads n of None \<Rightarrow> True | Some m \<Rightarrow> of_int r \<le> m))"
| "reported_within_limit db _ _ = True"

definition perform_all :: "(string \<Rightarrow> bool) \<Rightarrow> notes_table \<Rightarrow> operation list \<Rightarrow> notes_table" where
  "perform_all validAddress db ops = foldl (\<lambda>d op. snd (perform validAddress d op)) db ops"

section \<open>Encryption (src/lib/crypto.ts)\<close>

text \<open>A \<open>Uint8Array\<close>.\<close>

type_synonym bytes = "8 word list"

text \<open>
  The module calls into tweetnacl and tweetnacl-util, which are dependencies and not
  code of this repository. Their functions are a parameter of the model, with the
  results the module distinguishes: a value, \<open>null\<close> (\<open>None\<close>, from \<open>nacl.box.open\<close>), or
  a thrown error (\<open>Inl\<close>). \<open>fromSecretKey\<close> is \<open>nacl.box.keyPair.fromSecretKey\<close> and
  returns the public and the secret key.
\<close>

record nacl =
  decodeBase64 :: "string \<Rightarrow> js_error + bytes"
  encodeBase64 :: "bytes \<Rightarrow> string"
  decodeUTF8 :: "string \<Rightarrow> js_error + bytes"
  encodeUTF8 :: "bytes \<Rightarrow> js_error + string"
  box :: "bytes \<Rightarrow> bytes \<Rightarrow> bytes \<Rightarrow> bytes \<Rightarrow> js_error + bytes"
  box_open :: "bytes \<Rightarrow> bytes \<Rightarrow> bytes \<Rightarrow> bytes \<Rightarrow> js_error + bytes option"
  nonceLength :: nat
  hash :: "bytes \<Rightarrow> bytes"
  fromSecretKey :: "bytes \<Rightarrow> js_error + bytes \<times> bytes"

text \<open>
  The string a template literal makes of a caught error (\<open>Error.prototype.toString\<close>):
  the name, a colon and the message, or the name alone when the message is empty.
\<close>

definition error_name :: "js_error \<Rightarrow> string" where
  "error_name e =
     (case e of
        Error _ \<Rightarrow> ''Error''
      | TypeError _ \<Rightarrow> ''TypeError''
      | URIError _ \<Rightarrow> ''URIError''
      | SqliteError _ \<Rightarrow> ''SqliteError'')"

definition error_message :: "js_error \<Rightarrow> string" where
  "error_message e =
     (case e of Error m \<Rightarrow> m | TypeError m \<Rightarrow> m | URIError m \<Rightarrow> m | SqliteError m \<Rightarrow> m)"

definition toString :: "js_error \<Rightarrow> string" where
  "toString e =
     (if error_message e = [] then error_name e
      else error_name e @ '': '' @ error_message e)"

text \<open>What \<open>encryptMessage\<close> returns, each field base64 text.\<close>

record EncryptedPayload =
  e_ciphertext :: string
  e_nonce :: string
  e_ephemeralPublicKey :: string

text \<open>
  \<open>encryptMessage\<close>. The two random draws are arguments: \<open>ephemeralKeypair\<close> is what
  \<open>nacl.box.keyPair()\<close> returned (public key, secret key) and \<open>nonce'\<close> what
  \<open>nacl.randomBytes(nacl.box.nonceLength)\<close> returned. \<open>nacl.box\<close> returns a
  \<open>Uint8Array\<close>, which is never falsy, so the test \<open>!encrypted\<close> never fires.
\<close>

definition encryptMessage ::
  "nacl \<Rightarrow> bytes \<times> bytes \<Rightarrow> bytes \<Rightarrow> string \<Rightarrow> string \<Rightarrow> js_error + EncryptedPayload" where
  "encryptMessage L ephemeralKeypair nonce' message recipientPublicKey =
     (case decodeBase64 L recipientPublicKey of
        Inl e \<Rightarrow> Inl e
      | Inr recipientPubKeyBytes \<Rightarrow>
          if length recipientPubKeyBytes \<noteq> 32
          then Inl (Error ''Invalid recipient public key (must be 32 bytes)'')
          else
            (case decodeUTF8 L message of
               Inl e \<Rightarrow> Inl e
             | Inr messageBytes \<Rightarrow>
                 (case box L messageBytes nonce' recipientPubKeyBytes (snd ephemeralKeypair) of
                    Inl e \<Rightarrow> Inl e
                  | Inr encrypted \<Rightarrow>
                      Inr \<lparr>e_ciphertext = encodeBase64 L encrypted,
                           e_nonce = encodeBase64 L nonce',
                           e_ephemeralPublicKey = encodeBase64 L (fst ephemeralKeypair)\<rparr>)))"

text \<open>The body of the \<open>try\<close> in \<open>decryptMessage\<close>.\<close>

definition decryptMessage_try :: "nacl \<Rightarrow> string \<Rightarrow> string \<Rightarrow> string \<Rightarrow> string \<Rightarrow> js_error + string" where
  "decryptMessage_try L ciphertext' nonce' ephemeralPublicKey' recipientSecretKey =
     (case decodeBase64 L ciphertext' of
        Inl e \<Rightarrow> Inl e
      | Inr ciphertextBytes \<Rightarrow>
     (case decodeBase64 L nonce' of
        Inl e \<Rightarrow> Inl e
      | Inr nonceBytes \<Rightarrow>
     (case decodeBase64 L ephemeralPublicKey' of
        Inl e \<Rightarrow> Inl e
      | Inr ephemeralPubKeyBytes \<Rightarrow>
     (case decodeBase64 L recipientSecretKey of
        Inl e \<Rightarrow> Inl e
      | Inr recipientSecretKeyBytes \<Rightarrow>
     (case box_open L ciphertextBytes nonceBytes ephemeralPubKeyBytes recipientSecretKeyBytes of
        Inl e \<Rightarrow> Inl e
      | Inr None \<Rightarrow> Inl (Error ''Decryption failed - invalid key or corrupted data'')
      | Inr (Some decrypted) \<Rightarrow> encodeUTF8 L decrypted)))))"

text \<open>\<open>decryptMessage\<close>: whatever the body throws is caught and thrown again, wrapped.\<close>

definition decryptMessage :: "nacl \<Rightarrow> string \<Rightarrow> string \<Rightarrow> string \<Rightarrow> string \<Rightarrow> js_error + string" where
  "decryptMessage L ciphertext' nonce' ephemeralPublicKey' recipientSecretKey =
     (case decryptMessage_try L ciphertext' nonce' ephemeralPublicKey' recipientSecretKey of
        Inl error \<Rightarrow> Inl (Error (''Decryption failed: '' @ toString error))
      | Inr text \<Rightarrow> Inr text)"

text \<open>The keypair \<open>deriveEncryptionKeyFromSignature\<close> returns, each key base64 text.\<close>

record KeyPair =
  publicKey :: string
  secretKey :: string

text \<open>
  \<open>deriveEncryptionKeyFromSignature\<close>. The wallet's \<open>signMessage\<close> is a capability with
  a state of its own (\<open>'w\<close>): it returns a signature or rejects, and its next state.
\<close>

definition deriveEncryptionKeyFromSignature ::
  "nacl \<Rightarrow> ('w \<Rightarrow> bytes \<Rightarrow> (js_error + bytes) \<times> 'w) \<Rightarrow> 'w \<Rightarrow> string \<Rightarrow> (js_error + KeyPair) \<times> 'w" where
  "deriveEncryptionKeyFromSignature L signMessage w walletAddress =
     (case decodeUTF8 L (''DarkNote encryption key for '' @ walletAddress) of
        Inl e \<Rightarrow> (Inl e, w)
      | Inr message \<Rightarrow>
          (case signMessage w message of
             (Inl e, w') \<Rightarrow> (Inl e, w')
           | (Inr signature, w') \<Rightarrow>
               (let seed = take 32 (hash L signature)
                in case fromSecretKey L seed of
                     Inl e \<Rightarrow> (Inl e, w')
                   | Inr keypair \<Rightarrow>
                       (Inr \<lparr>publicKey = encodeBase64 L (fst keypair),
                             secretKey = encodeBase64 L (snd keypair)\<rparr>, w'))))"

subsection \<open>What the module relies on\<close>

text \<open>
  The documented behaviour of the two libraries that the round trip needs: base64 and
  UTF-8 decoding undo encoding, \<open>fromSecretKey\<close> keeps the secret key and returns a
  32-byte public key, and a box sealed for a keypair's public key with another
  keypair's secret key is opened by the first secret key and the second public key.
\<close>

definition keypair_of :: "nacl \<Rightarrow> bytes \<times> bytes \<Rightarrow> bool" where
  "keypair_of L K = (fromSecretKey L (snd K) = Inr K)"

definition nacl_contract :: "nacl \<Rightarrow> bool" where
  "nacl_contract L =
     ((\<forall>b. decodeBase64 L (encodeBase64 L b) = Inr b) \<and>
      (\<forall>s b. decodeUTF8 L s = Inr b \<longrightarrow> encodeUTF8 L b = Inr s) \<and>
      (\<forall>K. keypair_of L K \<longrightarrow> length (fst K) = 32) \<and>
      (\<forall>m n K E. length n = nonceLength L \<and> keypair_of L K \<and> keypair_of L E \<longrightarrow>
         (\<exists>c. box L m n (fst K) (snd E) = Inr c \<and>
              box_open L c n (fst E) (snd K) = Inr (Some m))))"

text \<open>The error \<open>decryptMessage\<close> throws: an \<open>Error\<close> whose message begins so.\<close>

definition isDecryptionFailed :: "js_error \<Rightarrow> bool" where
  "isDecryptionFailed e =
     (case e of Error m \<Rightarrow> take 17 m = ''Decryption failed'' | _ \<Rightarrow> False)"

subsection \<open>An instance of the library parameter\<close>

text \<open>
  A small instance of \<open>nacl\<close>, to run the module on and to show that the behaviour it
  relies on can be met. It stands in for the libraries and has none of their secrecy:
  text is coded in hexadecimal, \<open>encodeUTF8\<close> accepts exactly the well-formed UTF-8 byte
  sequences and rejects the rest with a \<open>URIError\<close> (a string of the model holds the
  UTF-8 bytes of the JavaScript string), a public key is its secret key, the shared key
  of two keypairs is the bytewise sum of their keys, and a box is the shared key and
  the nonce followed by the message.
\<close>

definition hexdigits :: string where
  "hexdigits = ''0123456789abcdef''"

definition hex_of_byte :: "8 word \<Rightarrow> string" where
  "hex_of_byte w = [hexdigits ! (unat w div 16), hexdigits ! (unat w mod 16)]"

text \<open>The value of a hexadecimal digit, \<open>None\<close> for any other character.\<close>

definition hexval :: "char \<Rightarrow> nat option" where
  "hexval c =
     (let n = (of_char c :: nat)
      in if 48 \<le> n \<and> n \<le> 57 then Some (n - 48)
         else if 97 \<le> n \<and> n \<le> 102 then Some (n - 87)
         else None)"

fun unhex :: "string \<Rightarrow> bytes option" where
  "unhex [] = Some []"
| "unhex [a] = None"
| "unhex (a # b # r) =
     (case (hexval a, hexval b, unhex r) of
        (Some x, Some y, Some bs) \<Rightarrow> Some (of_nat (16 * x + y) # bs)
      | _ \<Rightarrow> None)"

text \<open>Well-formed UTF-8: no overlong forms, no surrogates, nothing above U+10FFFF.\<close>

definition continuation :: "8 word \<Rightarrow> bool" where
  "continuation b = (0x80 \<le> b \<and> b \<le> 0xBF)"

fun utf8_ok :: "bytes \<Rightarrow> bool" where
  "utf8_ok [] = True"
| "utf8_ok (b # bs) =
     (if b < 0x80 then utf8_ok bs
      else if 0xC2 \<le> b \<and> b \<le> 0xDF then
        (case bs of
           c1 # r \<Rightarrow> continuation c1 \<and> utf8_ok r
         | _ \<Rightarrow> False)
      else if 0xE0 \<le> b \<and> b \<le> 0xEF then
        (case bs of
           c1 # c2 # r \<Rightarrow>
             (if b = 0xE0 then 0xA0 \<le> c1 \<and> c1 \<le> 0xBF
              else if b = 0xED then 0x80 \<le> c1 \<and> c1 \<le> 0x9F
              else continuation c1)
             \<and> continuation c2 \<and> utf8_ok r
         | _ \<Rightarrow> False)
      else if 0xF0 \<le> b \<and> b \<le> 0xF4 then
        (case bs of
           c1 # c2 # c3 # r \<Rightarrow>
             (if b = 0xF0 then 0x90 \<le> c1 \<and> c1 \<le> 0xBF
              else if b = 0xF4 then 0x80 \<le> c1 \<and> c1 \<le> 0x8F
              else continuation c1)
             \<and> continuation c2 \<and> continuation c3 \<and> utf8_ok r
         | _ \<Rightarrow> False)
      else False)"

definition shared_key :: "bytes \<Rightarrow> bytes \<Rightarrow> bytes" where
  "shared_key theirPublicKey mySecretKey = map2 (+) theirPublicKey mySecretKey"

text \<open>The size checks \<open>nacl.box\<close> and \<open>nacl.box.open\<close> make before anything else.\<close>

definition check_lengths :: "bytes \<Rightarrow> bytes \<Rightarrow> bytes \<Rightarrow> js_error option" where
  "check_lengths n pk sk =
     (if length pk \<noteq> 32 then Some (Error ''bad public key size'')
      else if length sk \<noteq> 32 then Some (Error ''bad secret key size'')
      else if length n \<noteq> 24 then Some (Error ''bad nonce size'')
      else None)"

definition plain_nacl :: nacl where
  "plain_nacl =
     \<lparr>decodeBase64 =
        (\<lambda>s. case unhex s of None \<Rightarrow> Inl (TypeError ''invalid encoding'') | Some b \<Rightarrow> Inr b),
      encodeBase64 = (\<lambda>b. concat (map hex_of_byte b)),
      decodeUTF8 =
        (\<lambda>s. if utf8_ok (map of_char s) then Inr (map of_char s)
             else Inl (URIError ''URI malformed'')),
      encodeUTF8 =
        (\<lambda>b. if utf8_ok b then Inr (map (\<lambda>w. char_of (unat w)) b)
             else Inl (URIError ''URI malformed'')),
      box =
        (\<lambda>m n pk sk. case check_lengths n pk sk of
             Some e \<Rightarrow> Inl e
           | None \<Rightarrow> Inr (shared_key pk sk @ n @ m)),
      box_open =
        (\<lambda>c n pk sk. case check_lengths n pk sk of
             Some e \<Rightarrow> Inl e
           | None \<Rightarrow>
               if take 56 c = shared_key pk sk @ n then Inr (Some (drop 56 c)) else Inr None),
      nonceLength = 24,
      hash = (\<lambda>b. take 64 (b @ replicate 64 0)),
      fromSecretKey =
        (\<lambda>sk. if length sk = 32 then Inr (sk, sk) else Inl (Error ''bad secret key size''))\<rparr>"

text \<open>Keys, a nonce and two boxes for the instance.\<close>

definition recipient_key :: bytes where "recipient_key = replicate 32 7"
definition other_key :: bytes where "other_key = replicate 32 8"
definition ephemeral_key :: bytes where "ephemeral_key = replicate 32 9"
definition some_nonce :: bytes where "some_nonce = replicate 24 3"

text \<open>A wallet that counts its calls and signs by reversing the message.\<close>

definition counting_wallet :: "nat \<Rightarrow> bytes \<Rightarrow> (js_error + bytes) \<times> nat" where
  "counting_wallet w m = (Inr (rev m), Suc w)"

definition box_of_FF :: bytes where
  "box_of_FF = shared_key recipient_key ephemeral_key @ some_nonce @ [0xFF]"

definition box_of_hi :: bytes where
  "box_of_hi = shared_key recipient_key ephemeral_key @ some_nonce @ [0x68, 0x69]"

definition short_key :: bytes where "short_key = replicate 31 7"

section \<open>Notes and requests to run the handlers on\<close>

definition note_two_reads :: Note where
  "note_two_reads =
     \<lparr>note_id = ''n1'', ciphertext = ''c2ln'', nonce = ''bm9u'', ephemeralPublicKey = ''ZXBr'',
      recipientAddress = ''addr'', createdAt = 0, selfDestruct = True, maxReads = Some 2,
      currentReads = 0\<rparr>"

definition note_unlimited :: Note where
  "note_unlimited =
     \<lparr>note_id = ''n2'', ciphertext = ''c2ln'', nonce = ''bm9u'', ephemeralPublicKey = ''ZXBr'',
      recipientAddress = ''addr'', createdAt = 0, selfDestruct = True, maxReads = None,
      currentReads = 0\<rparr>"

definition note_fifty_reads :: Note where
  "note_fifty_reads =
     \<lparr>note_id = ''n1'', ciphertext = ''c2ln'', nonce = ''bm9u'', ephemeralPublicKey = ''ZXBr'',
      recipientAddress = ''addr'', createdAt = 0, selfDestruct = True, maxReads = Some 50,
      currentReads = 0\<rparr>"

text \<open>
  What \<open>new PublicKey(s)\<close> of @solana/web3.js accepts of a string \<open>s\<close>: one that
  base58-decodes to 32 bytes. The decoder multiplies the bytes decoded so far by 58 and
  adds the next digit, byte by byte with a carry (the bytes are kept here from the lowest
  to the highest); every leading \<open>1\<close> of the string stands for one more zero byte.
\<close>

definition base58_alphabet :: string where
  "base58_alphabet = ''123456789ABCDEFGHJKLMNPQRSTUVWXYZabcdefghijkmnopqrstuvwxyz''"

fun position :: "char \<Rightarrow> string \<Rightarrow> nat option" where
  "position c [] = None"
| "position c (d # ds) = (if c = d then Some 0 else map_option Suc (position c ds))"

fun times58 :: "nat list \<Rightarrow> nat \<Rightarrow> nat list" where
  "times58 [] carry = (if carry = 0 then [] else [carry])"
| "times58 (b # bs) carry = (b * 58 + carry) mod 256 # times58 bs ((b * 58 + carry) div 256)"

fun base58_bytes :: "string \<Rightarrow> nat list \<Rightarrow> nat list option" where
  "base58_bytes [] bs = Some bs"
| "base58_bytes (c # cs) bs =
     (case position c base58_alphabet of
        None \<Rightarrow> None
      | Some d \<Rightarrow> base58_bytes cs (times58 bs d))"

definition publicKeyAccepts :: "string \<Rightarrow> bool" where
  "publicKeyAccepts s =
     (case base58_bytes s [] of
        None \<Rightarrow> False
      | Some bs \<Rightarrow> length (takeWhile (\<lambda>c. c = CHR ''1'') s) + length bs = 32)"

text \<open>
  A create request with \<open>maxReads\<close> as given, for the address of the system program
  (32 zero bytes).
\<close>

definition body_with :: "json option \<Rightarrow> CreateBody" where
  "body_with m =
     \<lparr>b_id = ''n3'', b_ciphertext = ''c2ln'', b_nonce = ''bm9u'', b_ephemeralPublicKey = ''ZXBr'',
      b_recipientAddress = ''11111111111111111111111111111111'', b_selfDestruct = Some True,
      b_maxReads = m\<rparr>"

section \<open>The handlers, one request at a time\<close>

lemma POST_increment_absent:
  "db i = None \<Longrightarrow> POST_increment db i = (IncrementNotFound, db)"
  by (simp add: POST_increment_def getNote_def)

lemma POST_increment_present:
  "db i = Some n \<Longrightarrow>
   POST_increment db i =
     (if (\<exists>m. maxReads n = Some m \<and> m \<le> of_int (currentReads n + 1))
      then (IncrementOk True (currentReads n + 1), db(i := None))
      else (IncrementOk False (currentReads n + 1),
            db(i \<mapsto> n\<lparr>currentReads := currentReads n + 1\<rparr>)))"
  by (auto simp: POST_increment_def getNote_def incrementReadCount_def deleteNote_def
      reachedMax_def reportedReads_def Let_def split: option.splits)

lemma GET_note_cases:
  "GET_note db i =
     (case db i of
        None \<Rightarrow> (GetNotFound, db)
      | Some n \<Rightarrow>
          if (\<exists>m. maxReads n = Some m \<and> m \<le> of_int (currentReads n))
          then (GetNotFound, db(i := None))
          else (GetOk \<lparr>p_id = note_id n, p_ciphertext = ciphertext n, p_nonce = nonce n,
                  p_ephemeralPublicKey = ephemeralPublicKey n,
                  p_recipientAddress = recipientAddress n, p_selfDestruct = selfDestruct n,
                  p_maxReads = maxReads n, p_currentReads = currentReads n\<rparr>, db))"
  by (auto simp: GET_note_def getNote_def deleteNote_def reachedMax_def publicFields_def
      split: option.splits)

lemma DELETE_note_cases:
  "DELETE_note db i =
     (case db i of None \<Rightarrow> (DeleteNotFound, db) | Some n \<Rightarrow> (DeleteOk, db(i := None)))"
  by (simp add: DELETE_note_def deleteNote_def split: option.splits)

lemma scenario_two_reads:
  assumes "db (note_id note) = None" "maxReads note = Some 2"
  shows "\<exists>row db0 db1 db2.
       createNote db now note = Inr (row, db0) \<and> currentReads row = 0 \<and>
       POST_increment db0 (note_id note) = (IncrementOk False 1, db1) \<and>
       GET_note db1 (note_id note) = (GetOk (publicFields (row\<lparr>currentReads := 1\<rparr>)), db1) \<and>
       POST_increment db1 (note_id note) = (IncrementOk True 2, db2) \<and>
       GET_note db2 (note_id note) = (GetNotFound, db2)"
  using assms
  by (simp add: createNote_def Let_def POST_increment_present GET_note_cases publicFields_def)

text \<open>
  C3. \<open>recordSuccessfulDecrypt\<close> (the increment handler, run without interleaving): on an
  absent note it answers not-found and changes nothing; on a stored note it adds one to
  the counter and reports the new count, deleting the note and reporting
  \<open>deleted: true\<close> exactly when \<open>maxReads\<close> is set and the new count has reached it.
  A note just created with \<open>maxReads = 2\<close> answers \<open>{deleted: false, currentReads: 1}\<close>
  and can still be fetched, then \<open>{deleted: true, currentReads: 2}\<close>, after which a
  fetch answers not-found.
\<close>

theorem recordSuccessfulDecrypt_reports:
  "(db i = None \<longrightarrow> POST_increment db i = (IncrementNotFound, db)) \<and>
   (\<forall>n. db i = Some n \<longrightarrow>
      POST_increment db i =
        (if (\<exists>m. maxReads n = Some m \<and> m \<le> of_int (currentReads n + 1))
         then (IncrementOk True (currentReads n + 1), db(i := None))
         else (IncrementOk False (currentReads n + 1),
               db(i \<mapsto> n\<lparr>currentReads := currentReads n + 1\<rparr>)))) \<and>
   (\<forall>note now. db (note_id note) = None \<and> maxReads note = Some 2 \<longrightarrow>
      (\<exists>row db0 db1 db2.
         createNote db now note = Inr (row, db0) \<and> currentReads row = 0 \<and>
         POST_increment db0 (note_id note) = (IncrementOk False 1, db1) \<and>
         GET_note db1 (note_id note) = (GetOk (publicFields (row\<lparr>currentReads := 1\<rparr>)), db1) \<and>
         POST_increment db1 (note_id note) = (IncrementOk True 2, db2) \<and>
         GET_note db2 (note_id note) = (GetNotFound, db2)))"
  using POST_increment_absent POST_increment_present scenario_two_reads by blast

theorem recordSuccessfulDecrypt_reports_witness:
  "POST_increment Map.empty ''n1'' = (IncrementNotFound, Map.empty) \<and>
   POST_increment [''n1'' \<mapsto> note_two_reads] ''n1''
     = (IncrementOk False 1, [''n1'' \<mapsto> note_two_reads\<lparr>currentReads := 1\<rparr>]) \<and>
   POST_increment [''n1'' \<mapsto> note_two_reads\<lparr>currentReads := 1\<rparr>] ''n1''
     = (IncrementOk True 2, Map.empty) \<and>
   (\<exists>row db0 db1 db2.
         createNote Map.empty 5 note_two_reads = Inr (row, db0) \<and> currentReads row = 0 \<and>
         POST_increment db0 ''n1'' = (IncrementOk False 1, db1) \<and>
         GET_note db1 ''n1'' = (GetOk (publicFields (row\<lparr>currentReads := 1\<rparr>)), db1) \<and>
         POST_increment db1 ''n1'' = (IncrementOk True 2, db2) \<and>
         GET_note db2 ''n1'' = (GetNotFound, db2))"
proof -
  have a: "POST_increment Map.empty ''n1'' = (IncrementNotFound, Map.empty)"
    using recordSuccessfulDecrypt_reports [of Map.empty "''n1''"] by simp
  have b: "POST_increment [''n1'' \<mapsto> note_two_reads] ''n1''
     = (IncrementOk False 1, [''n1'' \<mapsto> note_two_reads\<lparr>currentReads := 1\<rparr>])"
    using recordSuccessfulDecrypt_reports [of "[''n1'' \<mapsto> note_two_reads]" "''n1''"]
    by (simp add: note_two_reads_def)
  have c: "POST_increment [''n1'' \<mapsto> note_two_reads\<lparr>currentReads := 1\<rparr>] ''n1''
     = (IncrementOk True 2, Map.empty)"
    using recordSuccessfulDecrypt_reports
      [of "[''n1'' \<mapsto> note_two_reads\<lparr>currentReads := 1\<rparr>]" "''n1''"]
    by (simp add: note_two_reads_def)
  have "Map.empty (note_id note_two_reads) = None \<and> maxReads note_two_reads = Some 2"
    by (simp add: note_two_reads_def)
  with recordSuccessfulDecrypt_reports [of Map.empty "''n1''"]
  have d: "\<exists>row db0 db1 db2.
         createNote Map.empty 5 note_two_reads = Inr (row, db0) \<and> currentReads row = 0 \<and>
         POST_increment db0 (note_id note_two_reads) = (IncrementOk False 1, db1) \<and>
         GET_note db1 (note_id note_two_reads)
           = (GetOk (publicFields (row\<lparr>currentReads := 1\<rparr>)), db1) \<and>
         POST_increment db1 (note_id note_two_reads) = (IncrementOk True 2, db2) \<and>
         GET_note db2 (note_id note_two_reads) = (GetNotFound, db2)"
    by blast
  have "note_id note_two_reads = ''n1''" by (simp add: note_two_reads_def)
  with a b c d show ?thesis by simp
qed

lemma reachedMax_mono:
  "reachedMax (n\<lparr>currentReads := a\<rparr>) \<Longrightarrow> a \<le> b \<Longrightarrow> reachedMax (n\<lparr>currentReads := b\<rparr>)"
  by (auto simp: reachedMax_def split: option.splits)

lemma POST_increment_below:
  "db i = Some n \<Longrightarrow> \<not> reachedMax (n\<lparr>currentReads := currentReads n + 1\<rparr>) \<Longrightarrow>
   POST_increment db i =
     (IncrementOk False (currentReads n + 1), db(i \<mapsto> n\<lparr>currentReads := currentReads n + 1\<rparr>))"
  by (auto simp: POST_increment_present reachedMax_def split: option.splits)

lemma POST_increment_times_below:
  "db i = Some n \<Longrightarrow> \<not> reachedMax (n\<lparr>currentReads := currentReads n + int k\<rparr>) \<Longrightarrow>
   POST_increment_times k db i =
     (map (\<lambda>j. IncrementOk False (currentReads n + 1 + int j)) [0..<k],
      if k = 0 then db else db(i \<mapsto> n\<lparr>currentReads := currentReads n + int k\<rparr>))"
proof (induction k arbitrary: db n)
  case 0
  then show ?case by simp
next
  case (Suc k)
  let ?n1 = "n\<lparr>currentReads := currentReads n + 1\<rparr>"
  let ?db1 = "db(i \<mapsto> ?n1)"
  have "\<not> reachedMax ?n1"
    using Suc.prems(2) reachedMax_mono [where n = n and a = "currentReads n + 1"
        and b = "currentReads n + int (Suc k)"]
    by auto
  with Suc.prems(1)
  have step: "POST_increment db i = (IncrementOk False (currentReads n + 1), ?db1)"
    by (rule POST_increment_below)
  have "\<not> reachedMax (?n1\<lparr>currentReads := currentReads ?n1 + int k\<rparr>)"
    using Suc.prems(2) by (simp add: add.assoc)
  then have rest: "POST_increment_times k ?db1 i =
     (map (\<lambda>j. IncrementOk False (currentReads ?n1 + 1 + int j)) [0..<k],
      if k = 0 then ?db1 else ?db1(i \<mapsto> ?n1\<lparr>currentReads := currentReads ?n1 + int k\<rparr>))"
    by (intro Suc.IH) simp_all
  have shift: "map (\<lambda>j. IncrementOk False (currentReads n + 1 + int j)) [0..<Suc k] =
     IncrementOk False (currentReads n + 1) #
       map (\<lambda>j. IncrementOk False (currentReads ?n1 + 1 + int j)) [0..<k]"
    by (simp add: upt_conv_Cons map_Suc_upt [symmetric] add.commute add.left_commute
        del: upt_Suc)
  have "POST_increment_times (Suc k) db i =
      (IncrementOk False (currentReads n + 1) #
         map (\<lambda>j. IncrementOk False (currentReads ?n1 + 1 + int j)) [0..<k],
       if k = 0 then ?db1 else ?db1(i \<mapsto> ?n1\<lparr>currentReads := currentReads ?n1 + int k\<rparr>))"
    by (simp only: POST_increment_times.simps step rest Let_def fst_conv snd_conv)
  also have "\<dots> =
      (map (\<lambda>j. IncrementOk False (currentReads n + 1 + int j)) [0..<Suc k],
       if Suc k = 0 then db
       else db(i \<mapsto> n\<lparr>currentReads := currentReads n + int (Suc k)\<rparr>))"
    unfolding shift by (simp add: add.assoc)
  finally show ?case .
qed

lemma POST_increment_unlimited:
  "db i = Some n \<Longrightarrow> maxReads n = None \<Longrightarrow>
   POST_increment db i =
     (IncrementOk False (currentReads n + 1), db(i \<mapsto> n\<lparr>currentReads := currentReads n + 1\<rparr>))"
  by (simp add: POST_increment_present)

lemma POST_increment_times_unlimited:
  "db i = Some n \<Longrightarrow> maxReads n = None \<Longrightarrow>
   POST_increment_times k db i =
     (map (\<lambda>j. IncrementOk False (currentReads n + 1 + int j)) [0..<k],
      if k = 0 then db else db(i \<mapsto> n\<lparr>currentReads := currentReads n + int k\<rparr>))"
  by (rule POST_increment_times_below) (simp_all add: reachedMax_def)

text \<open>
  C8. A note with \<open>selfDestruct = true\<close> and no \<open>maxReads\<close> is never deleted by the
  increment handler: every call answers \<open>deleted: false\<close> with the new count (1 on a
  fresh note), after any number \<open>k\<close> of calls the note is still stored and fetched, and
  it is the \<open>DELETE\<close> request that removes it, after which a fetch answers not-found.
\<close>

theorem selfDestruct_without_maxReads_kept:
  assumes "db i = Some n" and "selfDestruct n" and "maxReads n = None"
  shows "POST_increment db i =
           (IncrementOk False (currentReads n + 1),
            db(i \<mapsto> n\<lparr>currentReads := currentReads n + 1\<rparr>)) \<and>
         (currentReads n = 0 \<longrightarrow> fst (POST_increment db i) = IncrementOk False 1) \<and>
         (\<forall>k. fst (POST_increment_times k db i) =
                 map (\<lambda>j. IncrementOk False (currentReads n + 1 + int j)) [0..<k] \<and>
               snd (POST_increment_times k db i) i =
                 Some (n\<lparr>currentReads := currentReads n + int k\<rparr>) \<and>
               fst (GET_note (snd (POST_increment_times k db i)) i) =
                 GetOk (publicFields (n\<lparr>currentReads := currentReads n + int k\<rparr>)) \<and>
               DELETE_note (snd (POST_increment_times k db i)) i =
                 (DeleteOk, (snd (POST_increment_times k db i))(i := None)) \<and>
               GET_note ((snd (POST_increment_times k db i))(i := None)) i =
                 (GetNotFound, (snd (POST_increment_times k db i))(i := None)))"
proof (intro conjI allI impI)
  fix k
  note t = POST_increment_times_unlimited [of db i n k, OF assms(1) assms(3)]
  show row: "snd (POST_increment_times k db i) i =
      Some (n\<lparr>currentReads := currentReads n + int k\<rparr>)"
    using assms(1) by (simp add: t)
  show "fst (POST_increment_times k db i) =
           map (\<lambda>j. IncrementOk False (currentReads n + 1 + int j)) [0..<k]"
    by (simp add: t)
  show "fst (GET_note (snd (POST_increment_times k db i)) i) =
           GetOk (publicFields (n\<lparr>currentReads := currentReads n + int k\<rparr>))"
    using assms(3) by (simp add: GET_note_cases row publicFields_def)
  show "DELETE_note (snd (POST_increment_times k db i)) i =
           (DeleteOk, (snd (POST_increment_times k db i))(i := None))"
    by (simp add: DELETE_note_cases row)
  show "GET_note ((snd (POST_increment_times k db i))(i := None)) i =
           (GetNotFound, (snd (POST_increment_times k db i))(i := None))"
    by (simp add: GET_note_cases)
next
  show p: "POST_increment db i =
           (IncrementOk False (currentReads n + 1),
            db(i \<mapsto> n\<lparr>currentReads := currentReads n + 1\<rparr>))"
    using assms(1) assms(3) by (rule POST_increment_unlimited)
  show "fst (POST_increment db i) = IncrementOk False 1" if "currentReads n = 0"
    using p that by simp
qed

theorem selfDestruct_without_maxReads_kept_witness:
  "POST_increment [''n2'' \<mapsto> note_unlimited] ''n2'' =
     (IncrementOk False 1, [''n2'' \<mapsto> note_unlimited\<lparr>currentReads := 1\<rparr>]) \<and>
   fst (POST_increment_times 3 [''n2'' \<mapsto> note_unlimited] ''n2'') =
     [IncrementOk False 1, IncrementOk False 2, IncrementOk False 3] \<and>
   fst (GET_note (snd (POST_increment_times 3 [''n2'' \<mapsto> note_unlimited] ''n2'')) ''n2'') =
     GetOk (publicFields (note_unlimited\<lparr>currentReads := 3\<rparr>)) \<and>
   fst (DELETE_note (snd (POST_increment_times 3 [''n2'' \<mapsto> note_unlimited] ''n2'')) ''n2'') =
     DeleteOk \<and>
   fst (GET_note ((snd (POST_increment_times 3 [''n2'' \<mapsto> note_unlimited] ''n2''))
          (''n2'' := None)) ''n2'') = GetNotFound"
proof -
  have h: "[''n2'' \<mapsto> note_unlimited] ''n2'' = Some note_unlimited"
    "selfDestruct note_unlimited" "maxReads note_unlimited = None"
    by (simp_all add: note_unlimited_def)
  have c: "currentReads note_unlimited = 0"
    by (simp add: note_unlimited_def)
  have u: "[0..<3] = [0, 1, 2]"
    by (simp add: upt_rec)
  note w = selfDestruct_without_maxReads_kept
    [of "[''n2'' \<mapsto> note_unlimited]" "''n2''" note_unlimited, OF h]
  note w1 = w [THEN conjunct1]
  note wk = w [THEN conjunct2, THEN conjunct2, THEN spec, of 3]
  from w1 wk show ?thesis
    by (simp add: c u)
qed

text \<open>
  C9. \<open>fetch\<close> (the \<open>GET\<close> handler): a stored note that has not reached its limit is
  returned with all its fields but \<open>createdAt\<close>, and the table is left as it was; a
  stored note with \<open>maxReads\<close> set and \<open>currentReads >= maxReads\<close> is deleted and the
  answer is not-found; an absent note is not-found.
\<close>

theorem fetch_observes_or_heals:
  "(db i = None \<longrightarrow> GET_note db i = (GetNotFound, db)) \<and>
   (\<forall>n. db i = Some n \<and> \<not> (\<exists>m. maxReads n = Some m \<and> m \<le> of_int (currentReads n)) \<longrightarrow>
      GET_note db i =
        (GetOk \<lparr>p_id = note_id n, p_ciphertext = ciphertext n, p_nonce = nonce n,
                p_ephemeralPublicKey = ephemeralPublicKey n,
                p_recipientAddress = recipientAddress n, p_selfDestruct = selfDestruct n,
                p_maxReads = maxReads n, p_currentReads = currentReads n\<rparr>, db)) \<and>
   (\<forall>n m. db i = Some n \<and> maxReads n = Some m \<and> m \<le> of_int (currentReads n) \<longrightarrow>
      GET_note db i = (GetNotFound, db(i := None)))"
  by (simp add: GET_note_cases)

theorem fetch_observes_or_heals_witness:
  "GET_note Map.empty ''n1'' = (GetNotFound, Map.empty) \<and>
   GET_note [''n1'' \<mapsto> note_two_reads\<lparr>currentReads := 1\<rparr>] ''n1'' =
     (GetOk \<lparr>p_id = ''n1'', p_ciphertext = ''c2ln'', p_nonce = ''bm9u'',
             p_ephemeralPublicKey = ''ZXBr'', p_recipientAddress = ''addr'',
             p_selfDestruct = True, p_maxReads = Some 2, p_currentReads = 1\<rparr>,
      [''n1'' \<mapsto> note_two_reads\<lparr>currentReads := 1\<rparr>]) \<and>
   GET_note [''n1'' \<mapsto> note_two_reads\<lparr>currentReads := 2\<rparr>] ''n1'' = (GetNotFound, Map.empty)"
proof -
  have a: "GET_note Map.empty ''n1'' = (GetNotFound, Map.empty)"
    using fetch_observes_or_heals [of Map.empty "''n1''"] by simp
  have b: "GET_note [''n1'' \<mapsto> note_two_reads\<lparr>currentReads := 1\<rparr>] ''n1'' =
     (GetOk \<lparr>p_id = ''n1'', p_ciphertext = ''c2ln'', p_nonce = ''bm9u'',
             p_ephemeralPublicKey = ''ZXBr'', p_recipientAddress = ''addr'',
             p_selfDestruct = True, p_maxReads = Some 2, p_currentReads = 1\<rparr>,
      [''n1'' \<mapsto> note_two_reads\<lparr>currentReads := 1\<rparr>])"
    using fetch_observes_or_heals [of "[''n1'' \<mapsto> note_two_reads\<lparr>currentReads := 1\<rparr>]" "''n1''"]
    by (simp add: note_two_reads_def)
  have c: "GET_note [''n1'' \<mapsto> note_two_reads\<lparr>currentReads := 2\<rparr>] ''n1'' = (GetNotFound, Map.empty)"
    using fetch_observes_or_heals [of "[''n1'' \<mapsto> note_two_reads\<lparr>currentReads := 2\<rparr>]" "''n1''"]
    by (simp add: note_two_reads_def)
  from a b c show ?thesis by simp
qed

section \<open>Requests served concurrently: no increment is lost\<close>

lemma POST_increment_times_absent:
  "db i = None \<Longrightarrow> POST_increment_times k db i = (replicate k IncrementNotFound, db)"
  by (induction k) (simp_all add: POST_increment_absent Let_def)

lemma POST_increment_times_add:
  "POST_increment_times (a + b) db i =
     (fst (POST_increment_times a db i) @
        fst (POST_increment_times b (snd (POST_increment_times a db i)) i),
      snd (POST_increment_times b (snd (POST_increment_times a db i)) i))"
  by (induction a arbitrary: db) (simp_all add: Let_def)

lemma POST_increment_times_limited:
  assumes row: "db i = Some n" and lim: "maxReads n = Some (of_nat M)"
    and fresh: "currentReads n = 0" and M: "0 < M" "M \<le> N"
  shows "POST_increment_times N db i =
     (map (\<lambda>j. IncrementOk False (1 + int j)) [0..<M - 1]
        @ IncrementOk True (int M) # replicate (N - M) IncrementNotFound,
      db(i := None))"
proof -
  let ?n1 = "n\<lparr>currentReads := int (M - 1)\<rparr>"
  let ?db1 = "if M - 1 = 0 then db else db(i \<mapsto> ?n1)"
  have N: "N = (M - 1) + (1 + (N - M))"
    using M by simp
  have "\<not> reachedMax (n\<lparr>currentReads := currentReads n + int (M - 1)\<rparr>)"
    using lim fresh M(1) by (simp add: reachedMax_def)
  from POST_increment_times_below [of db i n "M - 1", OF row this]
  have below: "POST_increment_times (M - 1) db i =
      (map (\<lambda>j. IncrementOk False (1 + int j)) [0..<M - 1], ?db1)"
    using fresh by simp
  have row1: "?db1 i = Some ?n1"
    using row fresh by auto
  have last: "POST_increment ?db1 i = (IncrementOk True (int M), db(i := None))"
  proof -
    have m: "int (M - 1) + 1 = int M"
      using M(1) by simp
    have d: "?db1(i := None) = db(i := None)"
      by auto
    have "POST_increment ?db1 i =
        (if (\<exists>m. maxReads ?n1 = Some m \<and> m \<le> of_int (currentReads ?n1 + 1))
         then (IncrementOk True (currentReads ?n1 + 1), ?db1(i := None))
         else (IncrementOk False (currentReads ?n1 + 1),
               ?db1(i \<mapsto> ?n1\<lparr>currentReads := currentReads ?n1 + 1\<rparr>)))"
      using row1 by (rule POST_increment_present [of ?db1 i ?n1])
    also have "\<dots> = (IncrementOk True (int M), db(i := None))"
      using lim M(1) by (simp add: m d)
    finally show ?thesis .
  qed
  have gone: "POST_increment_times (N - M) (db(i := None)) i =
      (replicate (N - M) IncrementNotFound, db(i := None))"
    by (rule POST_increment_times_absent) simp
  have tail: "POST_increment_times (1 + (N - M)) ?db1 i =
      (IncrementOk True (int M) # replicate (N - M) IncrementNotFound, db(i := None))"
    by (simp only: plus_1_eq_Suc POST_increment_times.simps last gone Let_def fst_conv snd_conv)
  show ?thesis
    by (subst N, subst POST_increment_times_add) (simp only: below tail fst_conv snd_conv)
qed


lemma length_requests_exec [simp]: "length (requests (exec i s k)) = length (requests s)"
  by (simp add: exec_def Let_def split: pc.splits)

lemma length_requests_run [simp]: "length (requests (run i sched s)) = length (requests s)"
  unfolding run_def by (induction sched arbitrary: s) simp_all

lemma responses_update_unfinished:
  "k < length ps \<Longrightarrow> \<not> finished (ps ! k) \<Longrightarrow> \<not> finished y \<Longrightarrow>
   responses (ps[k := y]) = responses ps"
proof (induction ps arbitrary: k rule: responses.induct)
  case 1
  then show ?case by simp
next
  case (2 r ps)
  then show ?case by (cases k) simp_all
next
  case (3 ps)
  then show ?case by (cases k; cases y) simp_all
next
  case (4 ps)
  then show ?case by (cases k; cases y) simp_all
qed

lemma responses_update_Done:
  "k < length ps \<Longrightarrow> \<not> finished (ps ! k) \<Longrightarrow>
   mset (responses (ps[k := Done r])) = add_mset r (mset (responses ps)) \<and>
   length (responses (ps[k := Done r])) = Suc (length (responses ps))"
proof (induction ps arbitrary: k rule: responses.induct)
  case 1
  then show ?case by simp
next
  case (2 r' ps)
  then show ?case by (cases k) simp_all
next
  case (3 ps)
  then show ?case by (cases k) simp_all
next
  case (4 ps)
  then show ?case by (cases k) simp_all
qed

lemma length_responses_le: "length (responses ps) \<le> length ps"
  by (induction ps rule: responses.induct) simp_all

lemma responses_all_finished:
  "\<forall>p \<in> set ps. finished p \<Longrightarrow> length (responses ps) = length ps"
  by (induction ps rule: responses.induct) simp_all

lemma POST_increment_times_Suc:
  "POST_increment_times (Suc k) db i =
     (fst (POST_increment_times k db i) @ [fst (POST_increment (snd (POST_increment_times k db i)) i)],
      snd (POST_increment (snd (POST_increment_times k db i)) i))"
  using POST_increment_times_add [of k 1 db i] by (simp add: Let_def)

lemma removes_POST_increment:
  "(if db i \<noteq> None \<and> snd (POST_increment db i) i = None then 1 else 0) =
   removes (fst (POST_increment db i))"
proof (cases "db i")
  case None
  then show ?thesis by (simp add: POST_increment_absent)
next
  case (Some n)
  then show ?thesis by (simp add: POST_increment_present)
qed

lemma served_exec:
  assumes inv: "served db i s"
  shows "served db i (exec i s k)"
proof (cases "k < length (requests s)")
  case False
  with inv show ?thesis by (simp add: exec_def)
next
  case k: True
  show ?thesis
  proof (cases "requests s ! k")
    case Awaiting
    with k have "responses ((requests s)[k := Resumed]) = responses (requests s)"
      by (intro responses_update_unfinished) simp_all
    with inv Awaiting k show ?thesis
      by (simp add: served_def exec_def Let_def)
  next
    case Resumed
    let ?n = "length (responses (requests s))"
    let ?r = "POST_increment (table s) i"
    from inv have t: "table s = snd (POST_increment_times ?n db i)"
      and m: "mset (responses (requests s)) = mset (fst (POST_increment_times ?n db i))"
      and c: "removed s = sum_list (map removes (fst (POST_increment_times ?n db i)))"
      by (simp_all add: served_def Let_def)
    from k Resumed
    have u: "mset (responses ((requests s)[k := Done (fst ?r)])) =
               add_mset (fst ?r) (mset (responses (requests s)))"
      "length (responses ((requests s)[k := Done (fst ?r)])) = Suc ?n"
      using responses_update_Done [of k "requests s" "fst ?r"] by simp_all
    have e: "exec i s k =
        \<lparr>table = snd ?r, requests = (requests s)[k := Done (fst ?r)],
         removed = removed s + removes (fst ?r)\<rparr>"
      using k Resumed removes_POST_increment [of "table s" i]
      by (simp add: exec_def Let_def)
    show ?thesis
      unfolding e served_def
      by (simp add: Let_def u POST_increment_times_Suc t [symmetric] m c
          del: POST_increment_times.simps)
  next
    case (Done r)
    with inv k show ?thesis by (simp add: exec_def)
  qed
qed

lemma served_run: "served db i s \<Longrightarrow> served db i (run i sched s)"
  unfolding run_def by (induction sched arbitrary: s) (simp_all add: served_exec)

lemma responses_replicate_Awaiting: "responses (replicate n Awaiting) = []"
  by (induction n) simp_all

lemma served_launch: "served db i (launch db n)"
  by (simp add: served_def launch_def responses_replicate_Awaiting)

lemma removes_below: "sum_list (map removes (map (\<lambda>j. IncrementOk False (1 + int j)) xs)) = 0"
  by (induction xs) simp_all

lemma removes_absent: "sum_list (map removes (replicate k IncrementNotFound)) = 0"
  by (induction k) simp_all

lemma POST_increment_times_fresh_below:
  assumes row: "db i = Some n" and lim: "maxReads n = Some (of_nat M)"
    and fresh: "currentReads n = 0" and k: "k < M"
  shows "POST_increment_times k db i =
     (map (\<lambda>j. IncrementOk False (1 + int j)) [0..<k],
      db(i \<mapsto> n\<lparr>currentReads := int k\<rparr>))"
proof -
  have "\<not> reachedMax (n\<lparr>currentReads := currentReads n + int k\<rparr>)"
    using lim fresh k by (simp add: reachedMax_def)
  from POST_increment_times_below [of db i n k, OF row this]
  have "POST_increment_times k db i =
     (map (\<lambda>j. IncrementOk False (1 + int j)) [0..<k],
      if k = 0 then db else db(i \<mapsto> n\<lparr>currentReads := int k\<rparr>))"
    using fresh by simp
  moreover have "db = db(i \<mapsto> n\<lparr>currentReads := int 0\<rparr>)"
    using row fresh by (auto simp: fun_eq_iff)
  ultimately show ?thesis
    by (cases "k = 0") simp_all
qed

text \<open>
  C1. A note with \<open>maxReads = 50\<close> and no reads yet, and 100 concurrent
  recordSuccessfulDecrypt requests on its id, under every schedule of the event loop.
  While fewer than 50 requests have answered, the stored \<open>currentReads\<close> is the number
  of requests that answered (no increment is lost), the note has not been removed, and
  the answers are \<open>deleted: false\<close> with the counts 1, 2, ... in some order. Once 50 or
  more have answered, the note is gone and was removed exactly once: the answers are
  the counts 1 to 49 with \<open>deleted: false\<close>, one \<open>{deleted: true, currentReads: 50}\<close>,
  and not-found for every later request; no count above 50 is stored or reported. When
  every request has answered, all 100 have.
\<close>

theorem concurrent_decrypts_settle:
  fixes db :: notes_table and sched :: "nat list" and i :: string
  defines "s \<equiv> run i sched (launch db 100)"
  defines "k \<equiv> length (responses (requests s))"
  assumes row: "db i = Some n0" and lim: "maxReads n0 = Some 50" and fresh: "currentReads n0 = 0"
  shows "(k < 50 \<longrightarrow>
            table s i = Some (n0\<lparr>currentReads := int k\<rparr>) \<and> removed s = 0 \<and>
            mset (responses (requests s)) =
              mset (map (\<lambda>j. IncrementOk False (1 + int j)) [0..<k])) \<and>
         (50 \<le> k \<longrightarrow>
            table s i = None \<and> removed s = 1 \<and>
            mset (responses (requests s)) =
              mset (map (\<lambda>j. IncrementOk False (1 + int j)) [0..<49]
                      @ IncrementOk True 50 # replicate (k - 50) IncrementNotFound)) \<and>
         ((\<forall>p \<in> set (requests s). finished p) \<longrightarrow> k = 100)"
proof (intro conjI impI)
  have inv: "served db i s"
    unfolding s_def by (rule served_run) (rule served_launch)
  then have t: "table s = snd (POST_increment_times k db i)"
    and m: "mset (responses (requests s)) = mset (fst (POST_increment_times k db i))"
    and c: "removed s = sum_list (map removes (fst (POST_increment_times k db i)))"
    by (simp_all add: served_def Let_def k_def)
  have lim': "maxReads n0 = Some (of_nat 50)"
    using lim by simp
  {
    assume "k < 50"
    with row lim' fresh have b: "POST_increment_times k db i =
       (map (\<lambda>j. IncrementOk False (1 + int j)) [0..<k],
        db(i \<mapsto> n0\<lparr>currentReads := int k\<rparr>))"
      by (rule POST_increment_times_fresh_below)
    show "table s i = Some (n0\<lparr>currentReads := int k\<rparr>)"
      by (simp add: t b)
    show "removed s = 0"
      by (simp add: c b removes_below)
    show "mset (responses (requests s)) =
        mset (map (\<lambda>j. IncrementOk False (1 + int j)) [0..<k])"
      by (simp add: m b)
  }
  {
    assume "50 \<le> k"
    with row lim' fresh have b: "POST_increment_times k db i =
       (map (\<lambda>j. IncrementOk False (1 + int j)) [0..<50 - 1]
          @ IncrementOk True (int 50) # replicate (k - 50) IncrementNotFound,
        db(i := None))"
      by (intro POST_increment_times_limited) simp_all
    show "table s i = None"
      by (simp add: t b)
    show "removed s = 1"
      by (simp add: c b removes_below removes_absent del: upt_Suc)
    show "mset (responses (requests s)) =
        mset (map (\<lambda>j. IncrementOk False (1 + int j)) [0..<49]
                @ IncrementOk True 50 # replicate (k - 50) IncrementNotFound)"
      by (simp add: m b del: upt_Suc)
  }
  {
    assume "\<forall>p \<in> set (requests s). finished p"
    then have "k = length (requests s)"
      unfolding k_def by (rule responses_all_finished)
    then show "k = 100"
      by (simp add: s_def launch_def)
  }
qed


text \<open>
  Two of the 100 requests, the second overtaking the first at the \<open>await\<close>; and all 100,
  resumed in the order 0 to 99 and run in the order 99 to 0.
\<close>

theorem concurrent_decrypts_settle_witness:
  "table (run ''n1'' [0, 1, 1, 0] (launch [''n1'' \<mapsto> note_fifty_reads] 100)) ''n1''
     = Some (note_fifty_reads\<lparr>currentReads := 2\<rparr>) \<and>
   removed (run ''n1'' [0, 1, 1, 0] (launch [''n1'' \<mapsto> note_fifty_reads] 100)) = 0 \<and>
   take 2 (requests (run ''n1'' [0, 1, 1, 0] (launch [''n1'' \<mapsto> note_fifty_reads] 100)))
     = [Done (IncrementOk False 2), Done (IncrementOk False 1)] \<and>
   table (run ''n1'' ([0..<100] @ rev [0..<100]) (launch [''n1'' \<mapsto> note_fifty_reads] 100)) ''n1''
     = None \<and>
   removed (run ''n1'' ([0..<100] @ rev [0..<100]) (launch [''n1'' \<mapsto> note_fifty_reads] 100))
     = 1 \<and>
   requests (run ''n1'' ([0..<100] @ rev [0..<100]) (launch [''n1'' \<mapsto> note_fifty_reads] 100))
     = replicate 50 (Done IncrementNotFound) @ Done (IncrementOk True 50)
         # map (\<lambda>j. Done (IncrementOk False (int j))) (rev [1..<50])"
proof -
  let ?db = "[''n1'' \<mapsto> note_fifty_reads]"
  let ?a = "run ''n1'' [0, 1, 1, 0] (launch ?db 100)"
  let ?b = "run ''n1'' ([0..<100] @ rev [0..<100]) (launch ?db 100)"
  have h: "?db ''n1'' = Some note_fifty_reads"
    "maxReads note_fifty_reads = Some 50" "currentReads note_fifty_reads = 0"
    by (simp_all add: note_fifty_reads_def)
  have ra: "take 2 (requests ?a) = [Done (IncrementOk False 2), Done (IncrementOk False 1)]"
    by code_simp
  have ka: "length (responses (requests ?a)) = 2"
    by code_simp
  have rb: "requests ?b = replicate 50 (Done IncrementNotFound) @ Done (IncrementOk True 50)
         # map (\<lambda>j. Done (IncrementOk False (int j))) (rev [1..<50])"
    by code_simp
  have kb: "length (responses (requests ?b)) = 100"
    by code_simp
  note wa = concurrent_decrypts_settle [of ?db "''n1''" note_fifty_reads "[0, 1, 1, 0]", OF h]
  note wb = concurrent_decrypts_settle
    [of ?db "''n1''" note_fifty_reads "[0..<100] @ rev [0..<100]", OF h]
  from wa [THEN conjunct1] ka
  have a: "table ?a ''n1'' = Some (note_fifty_reads\<lparr>currentReads := 2\<rparr>)" "removed ?a = 0"
    by simp_all
  from wb [THEN conjunct2, THEN conjunct1] kb
  have b: "table ?b ''n1'' = None" "removed ?b = 1"
    by simp_all
  from a b ra rb show ?thesis
    by (intro conjI)
qed

section \<open>The limit over operations run one at a time\<close>

lemma whole_step: "whole m \<Longrightarrow> of_int c < m \<Longrightarrow> of_int (c + 1) \<le> m"
proof -
  assume w: "whole m" and c: "of_int c < m"
  from w have m: "m = of_int \<lfloor>m\<rfloor>" unfolding whole_def by (rule sym)
  with c have "(of_int c :: rat) < of_int \<lfloor>m\<rfloor>" by simp
  then have "c < \<lfloor>m\<rfloor>" by (simp only: of_int_less_iff)
  then have "c + 1 \<le> \<lfloor>m\<rfloor>" by simp
  then have "(of_int (c + 1) :: rat) \<le> of_int \<lfloor>m\<rfloor>" by (simp only: of_int_le_iff)
  with m show ?thesis by simp
qed

lemma below_limit_create: "below_limit db \<Longrightarrow> below_limit (snd (POST_notes va now db body))"
  by (auto simp: below_limit_def POST_notes_def createNote_def invalidMaxReads_def maxReadsOf_def
      Let_def split: option.splits json.splits if_splits)

lemma whole_limits_create:
  "whole_limits db \<Longrightarrow> whole_request (Create body now) \<Longrightarrow>
   whole_limits (snd (POST_notes va now db body))"
  by (auto simp: whole_limits_def POST_notes_def createNote_def invalidMaxReads_def maxReadsOf_def
      Let_def split: option.splits json.splits if_splits)

lemma below_limit_increment: "below_limit db \<Longrightarrow> below_limit (snd (POST_increment db i))"
proof (cases "db i")
  case None
  then show "below_limit db \<Longrightarrow> ?thesis" by (simp add: POST_increment_absent)
next
  case (Some n)
  then show "below_limit db \<Longrightarrow> ?thesis"
    by (auto simp: POST_increment_present below_limit_def not_le)
qed

lemma whole_limits_increment: "whole_limits db \<Longrightarrow> whole_limits (snd (POST_increment db i))"
proof (cases "db i")
  case None
  then show "whole_limits db \<Longrightarrow> ?thesis" by (simp add: POST_increment_absent)
next
  case (Some n)
  then show "whole_limits db \<Longrightarrow> ?thesis"
    by (auto simp: POST_increment_present whole_limits_def)
qed

lemma below_limit_get: "below_limit db \<Longrightarrow> below_limit (snd (GET_note db i))"
  by (auto simp: GET_note_cases below_limit_def split: option.splits)

lemma whole_limits_get: "whole_limits db \<Longrightarrow> whole_limits (snd (GET_note db i))"
  by (auto simp: GET_note_cases whole_limits_def split: option.splits)

lemma below_limit_delete: "below_limit db \<Longrightarrow> below_limit (snd (DELETE_note db i))"
  by (auto simp: DELETE_note_cases below_limit_def split: option.splits)

lemma whole_limits_delete: "whole_limits db \<Longrightarrow> whole_limits (snd (DELETE_note db i))"
  by (auto simp: DELETE_note_cases whole_limits_def split: option.splits)

lemma below_limit_perform: "below_limit db \<Longrightarrow> below_limit (snd (perform va db op))"
  by (cases op)
    (simp_all add: perform_def below_limit_create below_limit_increment below_limit_get
      below_limit_delete)

lemma whole_limits_perform:
  "whole_limits db \<Longrightarrow> whole_request op \<Longrightarrow> whole_limits (snd (perform va db op))"
  by (cases op)
    (simp_all add: perform_def whole_limits_create whole_limits_increment whole_limits_get
      whole_limits_delete)

lemma below_limit_perform_all: "below_limit db \<Longrightarrow> below_limit (perform_all va db ops)"
  unfolding perform_all_def
  by (induction ops arbitrary: db) (simp_all add: below_limit_perform)

lemma whole_limits_perform_all:
  "whole_limits db \<Longrightarrow> \<forall>op \<in> set ops. whole_request op \<Longrightarrow>
   whole_limits (perform_all va db ops)"
  unfolding perform_all_def
  by (induction ops arbitrary: db) (simp_all add: whole_limits_perform)

lemma reported_perform:
  assumes b: "below_limit db" and w: "whole_limits db"
  shows "reported_within_limit db op (fst (perform va db op))"
proof (cases op)
  case (Create body now)
  then show ?thesis by (simp add: perform_def)
next
  case (Fetch i)
  with b show ?thesis
    by (cases "db i")
      (auto simp: perform_def GET_note_cases below_limit_def split: option.splits)
next
  case (RecordSuccessfulDecrypt i)
  show ?thesis
  proof (cases "db i")
    case None
    with RecordSuccessfulDecrypt show ?thesis
      by (simp add: perform_def POST_increment_absent)
  next
    case row: (Some n)
    show ?thesis
    proof (cases "maxReads n")
      case None
      with row RecordSuccessfulDecrypt show ?thesis
        by (simp add: perform_def POST_increment_present)
    next
      case (Some m)
      with row b have "of_int (currentReads n) < m"
        unfolding below_limit_def by blast
      moreover from Some row w have "whole m"
        unfolding whole_limits_def by blast
      ultimately have "of_int (currentReads n + 1) \<le> m"
        by (intro whole_step)
      with Some row RecordSuccessfulDecrypt show ?thesis
        by (simp add: perform_def POST_increment_present)
    qed
  qed
next
  case (Delete i)
  then show ?thesis by (simp add: perform_def)
qed

text \<open>
  The lifecycle operations (create, fetch, recordSuccessfulDecrypt, delete) run one at a
  time, starting from a table whose limited notes have fewer reads than their \<open>maxReads\<close>
  (the empty table is one). After any sequence of operations every stored note with
  \<open>maxReads\<close> set has \<open>currentReads < maxReads\<close>; and when the limits in the table
  and in the create requests are whole numbers, the \<open>currentReads\<close> that the next
  operation reports is at most \<open>maxReads\<close>.
\<close>

lemma serial_within_limit:
  assumes "below_limit db"
  shows "(\<forall>i n m. perform_all validAddress db ops i = Some n \<and> maxReads n = Some m \<longrightarrow>
            of_int (currentReads n) < m) \<and>
         (whole_limits db \<and> (\<forall>op \<in> set ops. whole_request op) \<longrightarrow>
            reported_within_limit (perform_all validAddress db ops) op
              (fst (perform validAddress (perform_all validAddress db ops) op)))"
proof -
  have bl: "below_limit (perform_all validAddress db ops)"
    using assms by (rule below_limit_perform_all)
  have a: "\<forall>i n m. perform_all validAddress db ops i = Some n \<and> maxReads n = Some m \<longrightarrow>
            of_int (currentReads n) < m"
    using bl unfolding below_limit_def by blast
  have b: "reported_within_limit (perform_all validAddress db ops) op
           (fst (perform validAddress (perform_all validAddress db ops) op))"
    if "whole_limits db \<and> (\<forall>op \<in> set ops. whole_request op)"
  proof -
    from that have "whole_limits (perform_all validAddress db ops)"
      by (intro whole_limits_perform_all) simp_all
    with bl show ?thesis by (rule reported_perform)
  qed
  from a b show ?thesis
    by blast
qed

lemma position_one: "position CHR ''1'' base58_alphabet = Some 0"
  by (simp add: base58_alphabet_def)

lemma publicKeyAccepts_system_program: "publicKeyAccepts ''11111111111111111111111111111111''"
  by (simp add: publicKeyAccepts_def position_one)

lemma publicKeyAccepts_short: "publicKeyAccepts ''addr'' = False"
  by (simp add: publicKeyAccepts_def base58_alphabet_def)

text \<open>
  C2. The reported count can exceed \<open>maxReads\<close>: the create handler tests the type and
  the range of \<open>maxReads\<close> but not that it is a whole number, so it accepts
  \<open>maxReads = 1.5\<close> and stores the note. The first recorded decrypt on that note answers
  \<open>{deleted: false, currentReads: 1}\<close>; the second one answers
  \<open>{deleted: true, currentReads: 2}\<close> and removes the note, and 2 is above 1.5.
\<close>

theorem fractional_maxReads_reported:
  "POST_notes publicKeyAccepts 7 Map.empty (body_with (Some (JNum (3 / 2)))) =
     (CreateOk ''n3'',
      [''n3'' \<mapsto> \<lparr>note_id = ''n3'', ciphertext = ''c2ln'', nonce = ''bm9u'',
          ephemeralPublicKey = ''ZXBr'',
          recipientAddress = ''11111111111111111111111111111111'', createdAt = 7,
          selfDestruct = True, maxReads = Some (3 / 2), currentReads = 0\<rparr>]) \<and>
   POST_increment_times 2
     [''n3'' \<mapsto> \<lparr>note_id = ''n3'', ciphertext = ''c2ln'', nonce = ''bm9u'',
          ephemeralPublicKey = ''ZXBr'',
          recipientAddress = ''11111111111111111111111111111111'', createdAt = 7,
          selfDestruct = True, maxReads = Some (3 / 2), currentReads = 0\<rparr>] ''n3'' =
     ([IncrementOk False 1, IncrementOk True 2], Map.empty) \<and>
   (3 / 2 :: rat) < of_int 2"
  by (simp add: POST_notes_def createNote_def body_with_def invalidMaxReads_def maxReadsOf_def
      Let_def POST_increment_def getNote_def incrementReadCount_def deleteNote_def
      reachedMax_def reportedReads_def numeral_2_eq_2 publicKeyAccepts_system_program)

section \<open>Encryption: what holds\<close>

lemma hexval_hexdigits: "k < 16 \<Longrightarrow> hexval (hexdigits ! k) = Some k"
proof -
  assume "k < 16"
  then have "k = 0 \<or> k = 1 \<or> k = 2 \<or> k = 3 \<or> k = 4 \<or> k = 5 \<or> k = 6 \<or> k = 7 \<or> k = 8
      \<or> k = 9 \<or> k = 10 \<or> k = 11 \<or> k = 12 \<or> k = 13 \<or> k = 14 \<or> k = 15"
    by arith
  then show ?thesis
    by (auto simp: hexdigits_def hexval_def Let_def)
qed

lemma unhex_hex_of_byte:
  "unhex (hex_of_byte w @ r) = (case unhex r of Some bs \<Rightarrow> Some (w # bs) | None \<Rightarrow> None)"
proof -
  have lt: "unat w div 16 < 16"
    using unsigned_less [of w, where 'a = nat] by (simp add: less_mult_imp_div_less)
  have "of_nat (16 * (unat w div 16) + unat w mod 16) = w"
    by simp
  then show ?thesis
    by (simp add: hex_of_byte_def hexval_hexdigits lt split: option.splits)
qed

lemma unhex_encode: "unhex (concat (map hex_of_byte b)) = Some b"
  by (induction b) (simp_all add: unhex_hex_of_byte)

lemma byte_of_char: "char_of (unat (of_char c :: 8 word)) = c"
proof -
  have "(of_char c :: 8 word) = of_nat (of_char c)"
    by (simp add: of_nat_of_char)
  moreover have "(of_char c :: nat) < 256"
    by (metis of_char_mod_256 mod_less_divisor zero_less_numeral)
  ultimately have "unat (of_char c :: 8 word) = of_char c"
    by (simp add: unat_of_nat)
  then show ?thesis by simp
qed

lemma shared_key_commute: "shared_key a b = shared_key b a"
  unfolding shared_key_def
proof (induction a arbitrary: b)
  case Nil
  then show ?case by simp
next
  case (Cons x xs)
  then show ?case by (cases b) (simp_all add: add.commute)
qed

lemma length_shared_key: "length (shared_key a b) = min (length a) (length b)"
  by (simp add: shared_key_def)

lemma plain_nacl_contract: "nacl_contract plain_nacl"
  unfolding nacl_contract_def
proof (intro conjI allI impI)
  fix b
  show "decodeBase64 plain_nacl (encodeBase64 plain_nacl b) = Inr b"
    by (simp add: plain_nacl_def unhex_encode)
next
  fix s b
  assume "decodeUTF8 plain_nacl s = Inr b"
  then have ok: "utf8_ok (map of_char s)" and b: "b = map of_char s"
    by (auto simp: plain_nacl_def split: if_splits)
  have "map (\<lambda>w. char_of (unat w)) (map of_char s :: bytes) = s"
    by (simp add: comp_def byte_of_char map_idI)
  with ok b show "encodeUTF8 plain_nacl b = Inr s"
    by (simp add: plain_nacl_def)
next
  fix K :: "bytes \<times> bytes"
  assume "keypair_of plain_nacl K"
  then show "length (fst K) = 32"
    by (cases K) (auto simp: keypair_of_def plain_nacl_def split: if_splits)
next
  fix m n :: bytes and K E :: "bytes \<times> bytes"
  assume h: "length n = nonceLength plain_nacl \<and> keypair_of plain_nacl K \<and> keypair_of plain_nacl E"
  then have n: "length n = 24"
    by (simp add: plain_nacl_def)
  from h have K: "fst K = snd K" "length (snd K) = 32"
    by (cases K; auto simp: keypair_of_def plain_nacl_def split: if_splits)+
  from h have E: "fst E = snd E" "length (snd E) = 32"
    by (cases E; auto simp: keypair_of_def plain_nacl_def split: if_splits)+
  let ?c = "shared_key (fst K) (snd E) @ n @ m"
  have sealed: "box plain_nacl m n (fst K) (snd E) = Inr ?c"
    using n K E by (simp add: plain_nacl_def check_lengths_def)
  have key: "shared_key (fst E) (snd K) = shared_key (fst K) (snd E)"
    using K E shared_key_commute [of "snd E" "snd K"] by simp
  have "length (shared_key (fst K) (snd E) @ n) = 56"
    using n K E by (simp add: length_shared_key)
  then have "take 56 ?c = shared_key (fst K) (snd E) @ n" "drop 56 ?c = m"
    by (simp_all add: length_shared_key)
  then have "box_open plain_nacl ?c n (fst E) (snd K) = Inr (Some m)"
    using n K E key by (simp add: plain_nacl_def check_lengths_def)
  with sealed
  show "\<exists>c. box plain_nacl m n (fst K) (snd E) = Inr c \<and>
        box_open plain_nacl c n (fst E) (snd K) = Inr (Some m)"
    by blast
qed

text \<open>
  C4. With libraries that behave as documented (\<open>nacl_contract\<close>), for every message
  that \<open>decodeUTF8\<close> accepts, every recipient keypair, every ephemeral keypair and every
  nonce of the box's nonce length: \<open>encryptMessage\<close> for the recipient's public key
  succeeds, and \<open>decryptMessage\<close> of its three fields with the recipient's secret key
  returns the message.
\<close>

theorem encrypt_decrypt_round_trip:
  assumes L: "nacl_contract L"
    and K: "keypair_of L K" and E: "keypair_of L E"
    and n: "length n = nonceLength L"
    and M: "decodeUTF8 L message = Inr messageBytes"
  shows "\<exists>p. encryptMessage L E n message (encodeBase64 L (fst K)) = Inr p \<and>
             decryptMessage L (e_ciphertext p) (e_nonce p) (e_ephemeralPublicKey p)
               (encodeBase64 L (snd K)) = Inr message"
proof -
  from L have b64: "\<And>b. decodeBase64 L (encodeBase64 L b) = Inr b"
    and utf: "\<And>s b. decodeUTF8 L s = Inr b \<Longrightarrow> encodeUTF8 L b = Inr s"
    and len: "\<And>K. keypair_of L K \<Longrightarrow> length (fst K) = 32"
    and bx: "\<And>m n K E. length n = nonceLength L \<Longrightarrow> keypair_of L K \<Longrightarrow> keypair_of L E \<Longrightarrow>
         \<exists>c. box L m n (fst K) (snd E) = Inr c \<and> box_open L c n (fst E) (snd K) = Inr (Some m)"
    unfolding nacl_contract_def by blast+
  from bx [OF n K E, of messageBytes] obtain c
    where c: "box L messageBytes n (fst K) (snd E) = Inr c"
      and o: "box_open L c n (fst E) (snd K) = Inr (Some messageBytes)"
    by blast
  let ?p = "\<lparr>e_ciphertext = encodeBase64 L c, e_nonce = encodeBase64 L n,
             e_ephemeralPublicKey = encodeBase64 L (fst E)\<rparr>"
  have enc: "encryptMessage L E n message (encodeBase64 L (fst K)) = Inr ?p"
    by (simp add: encryptMessage_def b64 len [OF K] M c)
  have "decryptMessage_try L (encodeBase64 L c) (encodeBase64 L n) (encodeBase64 L (fst E))
          (encodeBase64 L (snd K)) = Inr message"
    by (simp add: decryptMessage_try_def b64 o utf [OF M])
  then have "decryptMessage L (e_ciphertext ?p) (e_nonce ?p) (e_ephemeralPublicKey ?p)
               (encodeBase64 L (snd K)) = Inr message"
    by (simp add: decryptMessage_def)
  with enc show ?thesis by blast
qed

lemma keypair_of_plain: "length k = 32 \<Longrightarrow> keypair_of plain_nacl (k, k)"
  by (simp add: keypair_of_def plain_nacl_def)

lemma hi_bytes: "decodeUTF8 plain_nacl ''hi'' = Inr [0x68, 0x69]"
  by (simp add: plain_nacl_def)

theorem encrypt_decrypt_round_trip_witness:
  "nacl_contract plain_nacl \<and>
   keypair_of plain_nacl (recipient_key, recipient_key) \<and>
   keypair_of plain_nacl (ephemeral_key, ephemeral_key) \<and>
   length some_nonce = nonceLength plain_nacl \<and>
   decodeUTF8 plain_nacl ''hi'' = Inr [0x68, 0x69] \<and>
   (\<exists>p. encryptMessage plain_nacl (ephemeral_key, ephemeral_key) some_nonce ''hi''
           (encodeBase64 plain_nacl recipient_key) = Inr p \<and>
        decryptMessage plain_nacl (e_ciphertext p) (e_nonce p) (e_ephemeralPublicKey p)
          (encodeBase64 plain_nacl recipient_key) = Inr ''hi'')"
proof -
  have K: "keypair_of plain_nacl (recipient_key, recipient_key)"
    by (rule keypair_of_plain) (simp add: recipient_key_def)
  have E: "keypair_of plain_nacl (ephemeral_key, ephemeral_key)"
    by (rule keypair_of_plain) (simp add: ephemeral_key_def)
  have n: "length some_nonce = nonceLength plain_nacl"
    by (simp add: some_nonce_def plain_nacl_def)
  from encrypt_decrypt_round_trip [OF plain_nacl_contract K E n hi_bytes]
    plain_nacl_contract K E n hi_bytes
  show ?thesis by simp
qed

lemma fromSecretKey_plain: "length k = 32 \<Longrightarrow> fromSecretKey plain_nacl k = Inr (k, k)"
  by (simp add: plain_nacl_def)

lemma hash_plain: "hash plain_nacl b = take 64 (b @ replicate 64 0)"
  by (simp add: plain_nacl_def)

lemma derive_of_signature:
  assumes "decodeUTF8 L (''DarkNote encryption key for '' @ walletAddress) = Inr challenge"
    and "fst (signMessage w challenge) = Inr signature"
  shows "fst (deriveEncryptionKeyFromSignature L signMessage w walletAddress) =
      (case fromSecretKey L (take 32 (hash L signature)) of
         Inl e \<Rightarrow> Inl e
       | Inr keypair \<Rightarrow>
           Inr \<lparr>publicKey = encodeBase64 L (fst keypair),
                secretKey = encodeBase64 L (snd keypair)\<rparr>)"
  using assms
  by (cases "signMessage w challenge")
    (simp add: deriveEncryptionKeyFromSignature_def Let_def split: sum.splits)

text \<open>
  C6. Two invocations of \<open>deriveEncryptionKeyFromSignature\<close> for the same wallet address
  whose signing capabilities (in whatever state) return the same signature for the
  challenge return the same result, and that result is a function of the signature
  alone: the keypair \<open>fromSecretKey\<close> makes of the first 32 bytes of its hash.
\<close>

theorem derive_deterministic:
  assumes "decodeUTF8 L (''DarkNote encryption key for '' @ walletAddress) = Inr challenge"
    and "fst (signMessage w challenge) = Inr signature"
    and "fst (signMessage' w' challenge) = Inr signature"
  shows "fst (deriveEncryptionKeyFromSignature L signMessage w walletAddress) =
           fst (deriveEncryptionKeyFromSignature L signMessage' w' walletAddress) \<and>
         fst (deriveEncryptionKeyFromSignature L signMessage w walletAddress) =
           (case fromSecretKey L (take 32 (hash L signature)) of
              Inl e \<Rightarrow> Inl e
            | Inr keypair \<Rightarrow>
                Inr \<lparr>publicKey = encodeBase64 L (fst keypair),
                     secretKey = encodeBase64 L (snd keypair)\<rparr>)"
  using derive_of_signature [of L walletAddress challenge signMessage w signature]
    derive_of_signature [of L walletAddress challenge signMessage' w' signature] assms
  by simp

theorem derive_deterministic_witness:
  "fst (deriveEncryptionKeyFromSignature plain_nacl counting_wallet 0 ''abc'') =
     fst (deriveEncryptionKeyFromSignature plain_nacl counting_wallet 5 ''abc'') \<and>
   snd (deriveEncryptionKeyFromSignature plain_nacl counting_wallet 0 ''abc'') = 1 \<and>
   snd (deriveEncryptionKeyFromSignature plain_nacl counting_wallet 5 ''abc'') = 6 \<and>
   fst (deriveEncryptionKeyFromSignature plain_nacl counting_wallet 0 ''abc'') =
     Inr \<lparr>publicKey = encodeBase64 plain_nacl
              (rev (map of_char ''DarkNote encryption key for abc'') @ [0]),
          secretKey = encodeBase64 plain_nacl
              (rev (map of_char ''DarkNote encryption key for abc'') @ [0])\<rparr>"
proof -
  let ?challenge = "map of_char ''DarkNote encryption key for abc'' :: bytes"
  have c: "decodeUTF8 plain_nacl (''DarkNote encryption key for '' @ ''abc'') = Inr ?challenge"
    by (simp add: plain_nacl_def)
  have s: "fst (counting_wallet w ?challenge) = Inr (rev ?challenge)" for w
    by (simp add: counting_wallet_def)
  have "length (rev ?challenge @ [0]) = 32"
    by simp
  then have fk: "fromSecretKey plain_nacl (rev ?challenge @ [0]) =
      Inr (rev ?challenge @ [0], rev ?challenge @ [0])"
    by (rule fromSecretKey_plain)
  have "take 32 (take 64 (rev ?challenge @ replicate 64 0)) = rev ?challenge @ [0]"
    by simp
  then have seed: "take 32 (hash plain_nacl (rev ?challenge)) = rev ?challenge @ [0]"
    by (simp only: hash_plain)
  have st: "snd (deriveEncryptionKeyFromSignature plain_nacl counting_wallet w ''abc'') = Suc w"
    for w
    using c by (simp add: deriveEncryptionKeyFromSignature_def counting_wallet_def Let_def
        split: sum.splits)
  note d = derive_deterministic [where L = plain_nacl and walletAddress = "''abc''"
      and signMessage = counting_wallet and w = 0 and signMessage' = counting_wallet and w' = 5,
      OF c s [of 0] s [of 5]]
  have r: "fst (deriveEncryptionKeyFromSignature plain_nacl counting_wallet 0 ''abc'') =
     Inr \<lparr>publicKey = encodeBase64 plain_nacl (rev ?challenge @ [0]),
          secretKey = encodeBase64 plain_nacl (rev ?challenge @ [0])\<rparr>"
    using d [THEN conjunct2]
    by (simp only: seed fk sum.case fst_conv snd_conv)
  have one: "snd (deriveEncryptionKeyFromSignature plain_nacl counting_wallet 0 ''abc'') = 1"
    and six: "snd (deriveEncryptionKeyFromSignature plain_nacl counting_wallet 5 ''abc'') = 6"
    by (simp_all add: st)
  from d [THEN conjunct1] one six r show ?thesis
    by (intro conjI)
qed

lemma toString_simps:
  "toString (Error m) = (if m = [] then ''Error'' else ''Error: '' @ m)"
  "toString (TypeError m) = (if m = [] then ''TypeError'' else ''TypeError: '' @ m)"
  "toString (URIError m) = (if m = [] then ''URIError'' else ''URIError: '' @ m)"
  "toString (SqliteError m) = (if m = [] then ''SqliteError'' else ''SqliteError: '' @ m)"
  by (simp_all add: toString_def error_name_def error_message_def)

lemma decryptMessage_decoded:
  assumes "decodeBase64 L c = Inr cb" "decodeBase64 L n = Inr nb"
    "decodeBase64 L e = Inr eb" "decodeBase64 L k = Inr kb"
  shows "decryptMessage L c n e k =
     (case box_open L cb nb eb kb of
        Inl err \<Rightarrow> Inl (Error (''Decryption failed: '' @ toString err))
      | Inr None \<Rightarrow>
          Inl (Error ''Decryption failed: Error: Decryption failed - invalid key or corrupted data'')
      | Inr (Some opened) \<Rightarrow>
          (case encodeUTF8 L opened of
             Inl err \<Rightarrow> Inl (Error (''Decryption failed: '' @ toString err))
           | Inr text \<Rightarrow> Inr text))"
  using assms
  by (simp add: decryptMessage_def decryptMessage_try_def toString_simps
      split: sum.splits option.splits)

lemma decryptMessage_undecoded:
  assumes "decodeBase64 L c = Inl err
     \<or> (\<exists>cb. decodeBase64 L c = Inr cb \<and> decodeBase64 L n = Inl err)
     \<or> (\<exists>cb nb. decodeBase64 L c = Inr cb \<and> decodeBase64 L n = Inr nb \<and> decodeBase64 L e = Inl err)
     \<or> (\<exists>cb nb eb. decodeBase64 L c = Inr cb \<and> decodeBase64 L n = Inr nb \<and>
            decodeBase64 L e = Inr eb \<and> decodeBase64 L k = Inl err)"
  shows "decryptMessage L c n e k = Inl (Error (''Decryption failed: '' @ toString err))"
  using assms
  by (auto simp: decryptMessage_def decryptMessage_try_def)

text \<open>
  C10. For every four argument strings, whatever the libraries do, \<open>decryptMessage\<close>
  either returns a text, and then the four arguments decoded, the box opened and the
  text is \<open>encodeUTF8\<close> of the opened bytes; or it throws an \<open>Error\<close> whose message
  begins with \<open>Decryption failed: \<close>. An argument that is not base64, a size that
  \<open>nacl.box.open\<close> rejects, a failed authentication (\<open>null\<close>) and opened bytes that
  are not UTF-8 all end in that error, with the cause's text after the prefix.
\<close>

theorem decrypt_uniform_failure:
  "((\<exists>text cb nb eb kb opened.
       decryptMessage L c n e k = Inr text \<and>
       decodeBase64 L c = Inr cb \<and> decodeBase64 L n = Inr nb \<and> decodeBase64 L e = Inr eb \<and>
       decodeBase64 L k = Inr kb \<and> box_open L cb nb eb kb = Inr (Some opened) \<and>
       encodeUTF8 L opened = Inr text)
    \<or> (\<exists>cause. decryptMessage L c n e k = Inl (Error (''Decryption failed: '' @ cause)))) \<and>
   (\<forall>err. decodeBase64 L c = Inl err
       \<or> (\<exists>cb. decodeBase64 L c = Inr cb \<and> decodeBase64 L n = Inl err)
       \<or> (\<exists>cb nb. decodeBase64 L c = Inr cb \<and> decodeBase64 L n = Inr nb \<and>
              decodeBase64 L e = Inl err)
       \<or> (\<exists>cb nb eb. decodeBase64 L c = Inr cb \<and> decodeBase64 L n = Inr nb \<and>
              decodeBase64 L e = Inr eb \<and> decodeBase64 L k = Inl err) \<longrightarrow>
      decryptMessage L c n e k = Inl (Error (''Decryption failed: '' @ toString err))) \<and>
   (\<forall>cb nb eb kb. decodeBase64 L c = Inr cb \<and> decodeBase64 L n = Inr nb \<and>
        decodeBase64 L e = Inr eb \<and> decodeBase64 L k = Inr kb \<longrightarrow>
      (\<forall>err. box_open L cb nb eb kb = Inl err \<longrightarrow>
         decryptMessage L c n e k = Inl (Error (''Decryption failed: '' @ toString err))) \<and>
      (box_open L cb nb eb kb = Inr None \<longrightarrow>
         decryptMessage L c n e k =
           Inl (Error ''Decryption failed: Error: Decryption failed - invalid key or corrupted data'')) \<and>
      (\<forall>opened err. box_open L cb nb eb kb = Inr (Some opened) \<and> encodeUTF8 L opened = Inl err \<longrightarrow>
         decryptMessage L c n e k = Inl (Error (''Decryption failed: '' @ toString err))))"
proof (intro conjI)
  show "(\<exists>text cb nb eb kb opened.
       decryptMessage L c n e k = Inr text \<and>
       decodeBase64 L c = Inr cb \<and> decodeBase64 L n = Inr nb \<and> decodeBase64 L e = Inr eb \<and>
       decodeBase64 L k = Inr kb \<and> box_open L cb nb eb kb = Inr (Some opened) \<and>
       encodeUTF8 L opened = Inr text)
    \<or> (\<exists>cause. decryptMessage L c n e k = Inl (Error (''Decryption failed: '' @ cause)))"
    by (auto simp: decryptMessage_def decryptMessage_try_def split: sum.splits option.splits)
  show "\<forall>err. decodeBase64 L c = Inl err
       \<or> (\<exists>cb. decodeBase64 L c = Inr cb \<and> decodeBase64 L n = Inl err)
       \<or> (\<exists>cb nb. decodeBase64 L c = Inr cb \<and> decodeBase64 L n = Inr nb \<and>
              decodeBase64 L e = Inl err)
       \<or> (\<exists>cb nb eb. decodeBase64 L c = Inr cb \<and> decodeBase64 L n = Inr nb \<and>
              decodeBase64 L e = Inr eb \<and> decodeBase64 L k = Inl err) \<longrightarrow>
      decryptMessage L c n e k = Inl (Error (''Decryption failed: '' @ toString err))"
    using decryptMessage_undecoded [of L c _ n e k] by blast
  show "\<forall>cb nb eb kb. decodeBase64 L c = Inr cb \<and> decodeBase64 L n = Inr nb \<and>
        decodeBase64 L e = Inr eb \<and> decodeBase64 L k = Inr kb \<longrightarrow>
      (\<forall>err. box_open L cb nb eb kb = Inl err \<longrightarrow>
         decryptMessage L c n e k = Inl (Error (''Decryption failed: '' @ toString err))) \<and>
      (box_open L cb nb eb kb = Inr None \<longrightarrow>
         decryptMessage L c n e k =
           Inl (Error ''Decryption failed: Error: Decryption failed - invalid key or corrupted data'')) \<and>
      (\<forall>opened err. box_open L cb nb eb kb = Inr (Some opened) \<and> encodeUTF8 L opened = Inl err \<longrightarrow>
         decryptMessage L c n e k = Inl (Error (''Decryption failed: '' @ toString err)))"
    by (auto simp: decryptMessage_decoded)
qed

text \<open>
  C7, amended. When the box opens but \<open>encodeUTF8\<close> rejects the opened bytes,
  \<open>decryptMessage\<close> throws the same error as for a failed authentication, an \<open>Error\<close>
  whose message begins with \<open>Decryption failed\<close>, here followed by the text of the
  \<open>encodeUTF8\<close> error; there is no separate invalid-encoding error. When
  \<open>encodeUTF8\<close> accepts the bytes it returns the text, and with libraries that behave as
  documented that is the message whose UTF-8 bytes were sealed.
\<close>

theorem decrypt_invalid_encoding_wrapped:
  assumes "decodeBase64 L c = Inr cb" and "decodeBase64 L n = Inr nb"
    and "decodeBase64 L e = Inr eb" and "decodeBase64 L k = Inr kb"
    and "box_open L cb nb eb kb = Inr (Some opened)"
  shows "decryptMessage L c n e k =
           (case encodeUTF8 L opened of
              Inl cause \<Rightarrow> Inl (Error (''Decryption failed: '' @ toString cause))
            | Inr text \<Rightarrow> Inr text) \<and>
         (\<forall>cause. encodeUTF8 L opened = Inl cause \<longrightarrow>
            (\<exists>err. decryptMessage L c n e k = Inl err \<and> isDecryptionFailed err)) \<and>
         (\<forall>message. nacl_contract L \<and> decodeUTF8 L message = Inr opened \<longrightarrow>
            decryptMessage L c n e k = Inr message)"
proof -
  have d: "decryptMessage L c n e k =
           (case encodeUTF8 L opened of
              Inl cause \<Rightarrow> Inl (Error (''Decryption failed: '' @ toString cause))
            | Inr text \<Rightarrow> Inr text)"
    using assms by (simp add: decryptMessage_decoded)
  have f: "\<exists>err. decryptMessage L c n e k = Inl err \<and> isDecryptionFailed err"
    if "encodeUTF8 L opened = Inl cause" for cause
    using that d by (simp add: isDecryptionFailed_def)
  have r: "decryptMessage L c n e k = Inr message"
    if "nacl_contract L \<and> decodeUTF8 L message = Inr opened" for message
  proof -
    from that have "encodeUTF8 L opened = Inr message"
      unfolding nacl_contract_def by blast
    with d show ?thesis by simp
  qed
  from d f r show ?thesis by blast
qed

lemma decode_encode_plain: "decodeBase64 plain_nacl (encodeBase64 plain_nacl b) = Inr b"
  by (simp add: plain_nacl_def unhex_encode)

lemma box_open_plain:
  "box_open plain_nacl c n pk sk =
     (case check_lengths n pk sk of
        Some e \<Rightarrow> Inl e
      | None \<Rightarrow> if take 56 c = shared_key pk sk @ n then Inr (Some (drop 56 c)) else Inr None)"
  by (simp add: plain_nacl_def)

lemma encodeUTF8_plain:
  "encodeUTF8 plain_nacl b =
     (if utf8_ok b then Inr (map (\<lambda>w. char_of (unat w)) b) else Inl (URIError ''URI malformed''))"
  by (simp add: plain_nacl_def)

lemma open_FF:
  "box_open plain_nacl box_of_FF some_nonce ephemeral_key recipient_key = Inr (Some [0xFF])"
  by (simp add: box_open_plain check_lengths_def box_of_FF_def shared_key_def recipient_key_def
      ephemeral_key_def some_nonce_def)

lemma open_hi:
  "box_open plain_nacl box_of_hi some_nonce ephemeral_key recipient_key = Inr (Some [0x68, 0x69])"
  by (simp add: box_open_plain check_lengths_def box_of_hi_def shared_key_def recipient_key_def
      ephemeral_key_def some_nonce_def)

lemma open_other:
  "box_open plain_nacl box_of_FF some_nonce ephemeral_key other_key = Inr None"
  by (simp add: box_open_plain check_lengths_def box_of_FF_def shared_key_def recipient_key_def
      ephemeral_key_def some_nonce_def other_key_def)

lemma open_short:
  "box_open plain_nacl box_of_FF some_nonce ephemeral_key short_key =
     Inl (Error ''bad secret key size'')"
  by (simp add: box_open_plain check_lengths_def ephemeral_key_def some_nonce_def short_key_def)

lemma encode_FF: "encodeUTF8 plain_nacl [0xFF] = Inl (URIError ''URI malformed'')"
  by (simp add: encodeUTF8_plain)

lemma encode_hi: "encodeUTF8 plain_nacl [0x68, 0x69] = Inr ''hi''"
proof -
  have "[0x68, 0x69] = (map of_char ''hi'' :: bytes)"
    by simp
  moreover have "utf8_ok [0x68, 0x69]"
    by simp
  ultimately show ?thesis
    by (simp only: encodeUTF8_plain if_True map_map comp_def byte_of_char map_ident)
qed

lemma decode_zz: "decodeBase64 plain_nacl ''zz'' = Inl (TypeError ''invalid encoding'')"
  by (simp add: plain_nacl_def hexval_def)

text \<open>
  C7 as stated fails: a box that opens to the byte \<open>FF\<close>, which is not UTF-8, makes
  \<open>decryptMessage\<close> throw \<open>Error('Decryption failed: URIError: URI malformed')\<close>, an
  error of the same class and with the same beginning as the one a wrong key gives.
\<close>

theorem invalid_encoding_counterexample:
  "box_open plain_nacl box_of_FF some_nonce ephemeral_key recipient_key = Inr (Some [0xFF]) \<and>
   encodeUTF8 plain_nacl [0xFF] = Inl (URIError ''URI malformed'') \<and>
   decryptMessage plain_nacl (encodeBase64 plain_nacl box_of_FF) (encodeBase64 plain_nacl some_nonce)
     (encodeBase64 plain_nacl ephemeral_key) (encodeBase64 plain_nacl recipient_key)
     = Inl (Error ''Decryption failed: URIError: URI malformed'') \<and>
   isDecryptionFailed (Error ''Decryption failed: URIError: URI malformed'') \<and>
   box_open plain_nacl box_of_FF some_nonce ephemeral_key other_key = Inr None \<and>
   decryptMessage plain_nacl (encodeBase64 plain_nacl box_of_FF) (encodeBase64 plain_nacl some_nonce)
     (encodeBase64 plain_nacl ephemeral_key) (encodeBase64 plain_nacl other_key)
     = Inl (Error ''Decryption failed: Error: Decryption failed - invalid key or corrupted data'') \<and>
   isDecryptionFailed
     (Error ''Decryption failed: Error: Decryption failed - invalid key or corrupted data'')"
  by (simp add: decryptMessage_decoded [OF decode_encode_plain decode_encode_plain
        decode_encode_plain decode_encode_plain] open_FF open_other encode_FF toString_simps
      isDecryptionFailed_def)

theorem decrypt_invalid_encoding_wrapped_witness:
  "decryptMessage plain_nacl (encodeBase64 plain_nacl box_of_FF) (encodeBase64 plain_nacl some_nonce)
     (encodeBase64 plain_nacl ephemeral_key) (encodeBase64 plain_nacl recipient_key)
     = Inl (Error ''Decryption failed: URIError: URI malformed'') \<and>
   decryptMessage plain_nacl (encodeBase64 plain_nacl box_of_hi) (encodeBase64 plain_nacl some_nonce)
     (encodeBase64 plain_nacl ephemeral_key) (encodeBase64 plain_nacl recipient_key)
     = Inr ''hi''"
proof -
  note w = decrypt_invalid_encoding_wrapped [OF decode_encode_plain decode_encode_plain
      decode_encode_plain decode_encode_plain]
  from w [OF open_FF, THEN conjunct1] w [OF open_hi, THEN conjunct1]
  show ?thesis
    by (simp add: encode_FF encode_hi toString_simps)
qed

theorem decrypt_uniform_failure_witness:
  "decryptMessage plain_nacl ''zz'' (encodeBase64 plain_nacl some_nonce)
     (encodeBase64 plain_nacl ephemeral_key) (encodeBase64 plain_nacl recipient_key)
     = Inl (Error ''Decryption failed: TypeError: invalid encoding'') \<and>
   decryptMessage plain_nacl (encodeBase64 plain_nacl box_of_FF) (encodeBase64 plain_nacl some_nonce)
     (encodeBase64 plain_nacl ephemeral_key) (encodeBase64 plain_nacl short_key)
     = Inl (Error ''Decryption failed: Error: bad secret key size'') \<and>
   decryptMessage plain_nacl (encodeBase64 plain_nacl box_of_FF) (encodeBase64 plain_nacl some_nonce)
     (encodeBase64 plain_nacl ephemeral_key) (encodeBase64 plain_nacl other_key)
     = Inl (Error ''Decryption failed: Error: Decryption failed - invalid key or corrupted data'') \<and>
   decryptMessage plain_nacl (encodeBase64 plain_nacl box_of_FF) (encodeBase64 plain_nacl some_nonce)
     (encodeBase64 plain_nacl ephemeral_key) (encodeBase64 plain_nacl recipient_key)
     = Inl (Error ''Decryption failed: URIError: URI malformed'')"
proof -
  have a: "decryptMessage plain_nacl ''zz'' (encodeBase64 plain_nacl some_nonce)
     (encodeBase64 plain_nacl ephemeral_key) (encodeBase64 plain_nacl recipient_key)
     = Inl (Error (''Decryption failed: '' @ toString (TypeError ''invalid encoding'')))"
    using decrypt_uniform_failure [of plain_nacl "''zz''" "encodeBase64 plain_nacl some_nonce"
        "encodeBase64 plain_nacl ephemeral_key" "encodeBase64 plain_nacl recipient_key",
        THEN conjunct2, THEN conjunct1, THEN spec, of "TypeError ''invalid encoding''"]
      decode_zz
    by simp
  note d = decrypt_uniform_failure [THEN conjunct2, THEN conjunct2, THEN spec, THEN spec,
      THEN spec, THEN spec, THEN mp, OF conjI [OF decode_encode_plain conjI [OF decode_encode_plain
        conjI [OF decode_encode_plain decode_encode_plain]]]]
  have b: "decryptMessage plain_nacl (encodeBase64 plain_nacl box_of_FF)
     (encodeBase64 plain_nacl some_nonce)
     (encodeBase64 plain_nacl ephemeral_key) (encodeBase64 plain_nacl short_key)
     = Inl (Error (''Decryption failed: '' @ toString (Error ''bad secret key size'')))"
    using d [THEN conjunct1, THEN spec, THEN mp, OF open_short] .
  have c: "decryptMessage plain_nacl (encodeBase64 plain_nacl box_of_FF)
     (encodeBase64 plain_nacl some_nonce)
     (encodeBase64 plain_nacl ephemeral_key) (encodeBase64 plain_nacl other_key)
     = Inl (Error ''Decryption failed: Error: Decryption failed - invalid key or corrupted data'')"
    using d [THEN conjunct2, THEN conjunct1, THEN mp, OF open_other] .
  have e: "decryptMessage plain_nacl (encodeBase64 plain_nacl box_of_FF)
     (encodeBase64 plain_nacl some_nonce)
     (encodeBase64 plain_nacl ephemeral_key) (encodeBase64 plain_nacl recipient_key)
     = Inl (Error (''Decryption failed: '' @ toString (URIError ''URI malformed'')))"
    using d [THEN conjunct2, THEN conjunct2, THEN spec, THEN spec, THEN mp,
        OF conjI [OF open_FF encode_FF]] .
  from a b c e show ?thesis
    by (simp add: toString_simps)
qed

end
